theory Spec2Isabelle
  imports Main "HOL-Library.AList"
begin

section \<open>JavaScript values as the handlers observe them\<close>

text \<open>
  The message handler of \<^verbatim>\<open>src/server.js\<close> reads fields of a value produced by
  \<^verbatim>\<open>JSON.parse\<close> and pushes most of them through \<^verbatim>\<open>String(x || "")\<close>,
  \<^verbatim>\<open>===\<close> or a template literal. A field value is modelled by exactly what those
  operators can observe of it:
  \<^item> \<open>JUndefined\<close>: the field is absent;
  \<^item> \<open>JNum z r\<close>: a number, \<open>z\<close> telling whether it is zero (falsy) and \<open>r\<close> its
    \<^verbatim>\<open>String()\<close> rendering;
  \<^item> \<open>JObject r\<close>: an array or an object with its \<^verbatim>\<open>String()\<close> rendering; \<open>None\<close>
    when the conversion raises, as it does for an object that carries an own key
    \<^verbatim>\<open>toString\<close> (a JSON value is never callable, and \<^verbatim>\<open>Object.prototype.valueOf\<close>
    returns the object itself), e.g. \<^verbatim>\<open>{"toString":1}\<close>.
  Strings are lists of code units; only code units below 256 are represented.
\<close>

datatype error = TypeError

datatype jsval =
    JUndefined
  | JNull
  | JBool bool
  | JNum bool string
  | JStr string
  | JObject "string option"

fun js_truthy :: "jsval \<Rightarrow> bool" where
  "js_truthy JUndefined = False"
| "js_truthy JNull = False"
| "js_truthy (JBool b) = b"
| "js_truthy (JNum z r) = (\<not> z)"
| "js_truthy (JStr s) = (s \<noteq> [])"
| "js_truthy (JObject r) = True"

definition js_or :: "jsval \<Rightarrow> jsval \<Rightarrow> jsval" where
  "js_or a b = (if js_truthy a then a else b)"

fun js_String :: "jsval \<Rightarrow> error + string" where
  "js_String JUndefined = Inr ''undefined''"
| "js_String JNull = Inr ''null''"
| "js_String (JBool b) = Inr (if b then ''true'' else ''false'')"
| "js_String (JNum z r) = Inr r"
| "js_String (JStr s) = Inr s"
| "js_String (JObject None) = Inl TypeError"
| "js_String (JObject (Some r)) = Inr r"

definition str_or :: "string \<Rightarrow> string \<Rightarrow> string" where
  \<comment> \<open>\<^verbatim>\<open>a || b\<close> on strings: the empty string is falsy\<close>
  "str_or a b = (if a \<noteq> [] then a else b)"

definition get_or :: "string option \<Rightarrow> string \<Rightarrow> string" where
  \<comment> \<open>\<^verbatim>\<open>map.get(k) || b\<close>: a missing key gives \<^verbatim>\<open>undefined\<close>, which is falsy too\<close>
  "get_or a b = (case a of None \<Rightarrow> b | Some v \<Rightarrow> str_or v b)"

definition js_whitespace :: "char \<Rightarrow> bool" where
  "js_whitespace ch = (ch \<in> set [CHR 0x20, CHR 0x09, CHR 0x0A, CHR 0x0B, CHR 0x0C, CHR 0x0D, CHR 0xA0])"

definition trim :: "string \<Rightarrow> string" where
  "trim s = rev (dropWhile js_whitespace (rev (dropWhile js_whitespace s)))"

section \<open>Data model\<close>

text \<open>
  A connection identifier is the string \<^verbatim>\<open>uuidv4()\<close> returned at connect time. A socket
  object is identified by its identifier, so the handle stored in \<^verbatim>\<open>room.clients\<close> is
  the identifier of the socket it refers to. The JavaScript \<^verbatim>\<open>Map\<close>s are association
  lists in insertion order: \<^verbatim>\<open>set\<close> is \<^const>\<open>AList.update\<close> (an existing key keeps its
  position), \<^verbatim>\<open>delete\<close> is \<^const>\<open>AList.delete\<close>, \<^verbatim>\<open>get\<close> is \<^const>\<open>map_of\<close>.
\<close>

type_synonym cid = string

datatype role = Host | Viewer

record roster_rec =
  host :: "(cid \<times> string) option"
  viewers :: "(cid \<times> string) list"

datatype out_msg =
    Hello cid
  | ErrorMsg string
  | Joined string cid role "cid option" roster_rec
  | SystemMsg string
  | HostReady cid
  | ViewerJoined string cid string
  | ViewerLeft string cid
  | HostLeft string string
  | Chat string cid string string nat
  | Signal string cid jsval

text \<open>
  What the server does to the outside world is a chronological log of the library calls it
  makes: \<^verbatim>\<open>ws.send\<close>, \<^verbatim>\<open>ws.ping\<close>, \<^verbatim>\<open>ws.close\<close> and \<^verbatim>\<open>ws.terminate\<close>, each with the
  socket it is called on.
\<close>

datatype effect =
    Send cid out_msg
  | Ping cid
  | CloseCall cid
  | TerminateCall cid

record room =
  roomId :: string
  hostId :: "cid option"
  clients :: "(cid \<times> cid) list"
  roles :: "(cid \<times> role) list"
  names :: "(cid \<times> string) list"
  createdAt :: nat

text \<open>
  A socket leaves \<^verbatim>\<open>wss.clients\<close> at the moment its \<^verbatim>\<open>readyState\<close> becomes
  \<^verbatim>\<open>CLOSED\<close> (the library's own \<^verbatim>\<open>close\<close> listener runs before the server's), so a
  registered socket is \<open>OPEN\<close> or \<open>CLOSING\<close> and a socket that is not registered is
  closed.
\<close>

datatype ready_state = OPEN | CLOSING

record ws =
  isAlive :: bool
  ws_roomId :: "string option"
  ws_role :: "role option"
  readyState :: ready_state

record server =
  rooms :: "(string \<times> room) list"
  wss_clients :: "(cid \<times> ws) list"
  wire :: "effect list"

definition init_server :: server where
  "init_server = \<lparr>rooms = [], wss_clients = [], wire = []\<rparr>"

record msg =
  m_type :: jsval
  m_roomId :: jsval
  m_role :: jsval
  m_name :: jsval
  m_to :: jsval
  m_data :: jsval
  m_message :: jsval

text \<open>
  The outcome of \<^verbatim>\<open>JSON.parse(raw.toString("utf8"))\<close>: a syntax error, the value
  \<^verbatim>\<open>null\<close> (reading a property of it raises), or any other value, of which the handler
  reads seven properties (all absent on a number, a string, a boolean or an array).
\<close>

datatype inbound = Unparseable | ParsedNull | Parsed msg

section \<open>Helpers of the server\<close>

text \<open>
  \<^verbatim>\<open>safeSend\<close>, \<^verbatim>\<open>broadcast\<close>, \<^verbatim>\<open>getRoom\<close>, \<^verbatim>\<open>ensureRoom\<close>, \<^verbatim>\<open>deleteRoom\<close> and
  \<^verbatim>\<open>roster\<close> of \<^verbatim>\<open>src/server.js\<close> (lines 47 to 87), on an explicit server state. A
  handle that is \<^verbatim>\<open>undefined\<close> (a failed \<^verbatim>\<open>Map.get\<close>) is \<open>None\<close>; \<^verbatim>\<open>Date.now()\<close> is
  an argument.
\<close>

definition is_open :: "server \<Rightarrow> cid \<Rightarrow> bool" where
  "is_open s h = (case map_of (wss_clients s) h of None \<Rightarrow> False | Some w \<Rightarrow> readyState w = OPEN)"

definition emit :: "effect \<Rightarrow> server \<Rightarrow> server" where
  "emit e s = s\<lparr>wire := wire s @ [e]\<rparr>"

definition safeSend :: "cid option \<Rightarrow> out_msg \<Rightarrow> server \<Rightarrow> server" where
  "safeSend target obj s =
     (case target of
        None \<Rightarrow> s
      | Some h \<Rightarrow> if \<not> is_open s h then s else emit (Send h obj) s)"

definition broadcast :: "room \<Rightarrow> out_msg \<Rightarrow> server \<Rightarrow> server" where
  "broadcast rm obj s = fold (\<lambda>h. safeSend (Some h) obj) (map snd (clients rm)) s"

definition getRoom :: "string \<Rightarrow> server \<Rightarrow> room option" where
  "getRoom rid s = map_of (rooms s) rid"

definition putRoom :: "string \<Rightarrow> room \<Rightarrow> server \<Rightarrow> server" where
  \<comment> \<open>a room object is mutated in place; the model writes the new value back under the key
     it was fetched by\<close>
  "putRoom rid rm s = s\<lparr>rooms := AList.update rid rm (rooms s)\<rparr>"

definition ensureRoom :: "string \<Rightarrow> nat \<Rightarrow> server \<Rightarrow> room \<times> server" where
  "ensureRoom rid now s =
     (case map_of (rooms s) rid of
        Some rm \<Rightarrow> (rm, s)
      | None \<Rightarrow>
          (let rm = \<lparr>roomId = rid, hostId = None, clients = [], roles = [], names = [],
                     createdAt = now\<rparr>
           in (rm, s\<lparr>rooms := AList.update rid rm (rooms s)\<rparr>)))"

definition deleteRoom :: "string \<Rightarrow> server \<Rightarrow> server" where
  "deleteRoom rid s = s\<lparr>rooms := AList.delete rid (rooms s)\<rparr>"

definition roster :: "room \<Rightarrow> roster_rec" where
  "roster rm =
     \<lparr>host = (case hostId rm of
                None \<Rightarrow> None
              | Some h \<Rightarrow> if h = [] then None else Some (h, get_or (map_of (names rm) h) ''Host'')),
      viewers = map (\<lambda>(i, r). (i, get_or (map_of (names rm) i) ''Viewer''))
                    (filter (\<lambda>(i, r). r = Viewer) (roles rm))\<rparr>"

definition set_ws :: "cid \<Rightarrow> (ws \<Rightarrow> ws) \<Rightarrow> server \<Rightarrow> server" where
  "set_ws c f s = s\<lparr>wss_clients := AList.map_entry c f (wss_clients s)\<rparr>"

definition ws_close :: "cid \<Rightarrow> server \<Rightarrow> server" where
  \<comment> \<open>\<^verbatim>\<open>ws.close()\<close>: an open socket starts the closing handshake; its \<^verbatim>\<open>close\<close> event comes later\<close>
  "ws_close h s = set_ws h (\<lambda>w. w\<lparr>readyState := CLOSING\<rparr>) (emit (CloseCall h) s)"

definition ws_terminate :: "cid \<Rightarrow> server \<Rightarrow> server" where
  \<comment> \<open>\<^verbatim>\<open>ws.terminate()\<close>: the socket is destroyed; its \<^verbatim>\<open>close\<close> event comes later\<close>
  "ws_terminate h s = set_ws h (\<lambda>w. w\<lparr>readyState := CLOSING\<rparr>) (emit (TerminateCall h) s)"

section \<open>Keepalive\<close>

text \<open>
  The body of the \<^verbatim>\<open>setInterval\<close> callback (lines 90 to 99): \<open>probe\<close> is one turn of
  its loop, \<open>keepalive\<close> the loop over \<^verbatim>\<open>wss.clients\<close> in insertion order.
\<close>

definition probe :: "cid \<Rightarrow> server \<Rightarrow> server" where
  "probe c s =
     (case map_of (wss_clients s) c of
        None \<Rightarrow> s
      | Some w \<Rightarrow>
          if isAlive w = False then ws_terminate c s
          else emit (Ping c) (set_ws c (\<lambda>w. w\<lparr>isAlive := False\<rparr>) s))"

definition keepalive :: "server \<Rightarrow> server" where
  "keepalive s = fold probe (map fst (wss_clients s)) s"

section \<open>Connection handlers\<close>

text \<open>
  The handlers registered in \<^verbatim>\<open>wss.on("connection")\<close> (lines 101 to 262). The closure
  variables \<^verbatim>\<open>ws\<close> and \<^verbatim>\<open>clientId\<close> are the argument \<open>c\<close>; a handler that only reads
  fields of \<^verbatim>\<open>ws\<close> gets them as the record \<open>w\<close>.
\<close>

definition on_connection :: "cid \<Rightarrow> server \<Rightarrow> server" where
  "on_connection c s =
     safeSend (Some c) (Hello c)
       (s\<lparr>wss_clients :=
            AList.update c \<lparr>isAlive = True, ws_roomId = None, ws_role = None, readyState = OPEN\<rparr>
              (wss_clients s)\<rparr>)"

definition on_pong :: "cid \<Rightarrow> server \<Rightarrow> server" where
  "on_pong c s = set_ws c (\<lambda>w. w\<lparr>isAlive := True\<rparr>) s"

subsection \<open>join\<close>

text \<open>
  Lines 122 to 183. \<open>join_fields\<close> is lines 123 to 125, in their order of evaluation;
  \<open>insert_member\<close> lines 132 to 134 and \<open>remove_member\<close> lines 158 to 160 (and 237 to
  239 of the close handler); \<open>join_host\<close> lines 139 to 152, with \<open>notify_viewers\<close> its
  loop; \<open>join_viewer\<close> lines 154 to 180.
\<close>

definition join_fields :: "msg \<Rightarrow> error + (string \<times> role \<times> string)" where
  "join_fields m =
     (case js_String (js_or (m_roomId m) (JStr [])) of
        Inl e \<Rightarrow> Inl e
      | Inr rid \<Rightarrow>
          (let r = (if m_role m = JStr ''host'' then Host else Viewer) in
           case js_String (js_or (m_name m) (JStr [])) of
             Inl e \<Rightarrow> Inl e
           | Inr nm \<Rightarrow>
               Inr (trim rid, r,
                    str_or (take 40 (trim nm)) (if r = Host then ''Host'' else ''Viewer''))))"

definition insert_member :: "cid \<Rightarrow> role \<Rightarrow> string \<Rightarrow> room \<Rightarrow> room" where
  "insert_member c r nm rm =
     rm\<lparr>clients := AList.update c c (clients rm),
        roles := AList.update c r (roles rm),
        names := AList.update c nm (names rm)\<rparr>"

definition remove_member :: "cid \<Rightarrow> room \<Rightarrow> room" where
  "remove_member c rm =
     rm\<lparr>clients := AList.delete c (clients rm),
        roles := AList.delete c (roles rm),
        names := AList.delete c (names rm)\<rparr>"

definition notify_viewers :: "cid \<Rightarrow> room \<Rightarrow> server \<Rightarrow> server" where
  "notify_viewers c rm s =
     fold (\<lambda>(i, r) s'. if r = Viewer \<and> i \<noteq> c
                        then safeSend (map_of (clients rm) i) (HostReady c) s' else s')
          (roles rm) s"

definition join_host :: "cid \<Rightarrow> string \<Rightarrow> string \<Rightarrow> room \<Rightarrow> server \<Rightarrow> server" where
  "join_host c rid nm rm s =
     (let rm' = rm\<lparr>hostId := Some c\<rparr>;
          s1 = putRoom rid rm' s;
          s2 = safeSend (Some c) (Joined rid c Host None (roster rm')) s1;
          s3 = broadcast rm' (SystemMsg (nm @ '' is hosting room '' @ rid)) s2
      in notify_viewers c rm' s3)"

definition host_handle :: "room \<Rightarrow> cid option" where
  \<comment> \<open>\<^verbatim>\<open>room.hostId && room.clients.get(room.hostId)\<close>\<close>
  "host_handle rm =
     (case hostId rm of
        None \<Rightarrow> None
      | Some h \<Rightarrow> if h = [] then None else map_of (clients rm) h)"

definition join_viewer :: "cid \<Rightarrow> string \<Rightarrow> string \<Rightarrow> room \<Rightarrow> server \<Rightarrow> server" where
  "join_viewer c rid nm rm s =
     (if host_handle rm = None then
        (let s1 = putRoom rid (remove_member c rm) s;
             s2 = set_ws c (\<lambda>w. w\<lparr>ws_roomId := None, ws_role := None\<rparr>) s1
         in safeSend (Some c) (ErrorMsg ''Room exists but host is not online yet.'') s2)
      else
        (let s1 = safeSend (Some c) (Joined rid c Viewer (hostId rm) (roster rm)) s;
             s2 = safeSend (host_handle rm) (ViewerJoined rid c nm) s1
         in broadcast rm (SystemMsg (nm @ '' joined.'')) s2))"

definition handle_join :: "cid \<Rightarrow> msg \<Rightarrow> nat \<Rightarrow> server \<Rightarrow> error + server" where
  "handle_join c m now s =
     (case join_fields m of
        Inl e \<Rightarrow> Inl e
      | Inr (rid, r, nm) \<Rightarrow>
          if rid = [] then Inr (safeSend (Some c) (ErrorMsg ''Missing roomId'') s)
          else
            (let (rm0, s1) = ensureRoom rid now s;
                 rm = insert_member c r nm rm0;
                 s2 = putRoom rid rm s1;
                 s3 = set_ws c (\<lambda>w. w\<lparr>ws_roomId := Some rid, ws_role := Some r\<rparr>) s2
             in Inr (if r = Host then join_host c rid nm rm s3 else join_viewer c rid nm rm s3)))"

subsection \<open>signal, chat, leave and the fallthrough\<close>

text \<open>
  Lines 185 to 224, and the dispatch on \<^verbatim>\<open>msg.type\<close> with \<^verbatim>\<open>===\<close> that selects among
  them. Reading \<^verbatim>\<open>msg.type\<close> of \<^verbatim>\<open>null\<close> (line 120) and converting an object without a
  usable \<^verbatim>\<open>toString\<close> to a string raise a TypeError that nothing in the handler catches.
\<close>

definition current_room :: "ws \<Rightarrow> string option" where
  \<comment> \<open>\<^verbatim>\<open>ws.roomId\<close> as the test \<^verbatim>\<open>if (!roomId)\<close> sees it\<close>
  "current_room w = (case ws_roomId w of None \<Rightarrow> None | Some rid \<Rightarrow> if rid = [] then None else Some rid)"

definition handle_signal :: "cid \<Rightarrow> ws \<Rightarrow> msg \<Rightarrow> server \<Rightarrow> error + server" where
  "handle_signal c w m s =
     (case current_room w of
        None \<Rightarrow> Inr (safeSend (Some c) (ErrorMsg ''Not in a room'') s)
      | Some rid \<Rightarrow>
          (case getRoom rid s of
             None \<Rightarrow> Inr (safeSend (Some c) (ErrorMsg ''Room not found'') s)
           | Some rm \<Rightarrow>
               (case js_String (js_or (m_to m) (JStr [])) of
                  Inl e \<Rightarrow> Inl e
                | Inr t \<Rightarrow>
                    (let to = trim t in
                     if to = [] \<or> map_of (clients rm) to = None
                     then Inr (safeSend (Some c) (ErrorMsg ''Invalid 'to' target'') s)
                     else Inr (safeSend (map_of (clients rm) to) (Signal rid c (m_data m)) s)))))"

definition handle_chat :: "cid \<Rightarrow> ws \<Rightarrow> msg \<Rightarrow> nat \<Rightarrow> server \<Rightarrow> error + server" where
  "handle_chat c w m now s =
     (case current_room w of
        None \<Rightarrow> Inr (safeSend (Some c) (ErrorMsg ''Not in a room'') s)
      | Some rid \<Rightarrow>
          (case getRoom rid s of
             None \<Rightarrow> Inr (safeSend (Some c) (ErrorMsg ''Room not found'') s)
           | Some rm \<Rightarrow>
               (case js_String (js_or (m_message m) (JStr [])) of
                  Inl e \<Rightarrow> Inl e
                | Inr t \<Rightarrow>
                    (let message = take 2000 t;
                         senderName = get_or (map_of (names rm) c) ''User''
                     in Inr (broadcast rm (Chat rid c senderName message now) s)))))"

definition handle_unknown :: "cid \<Rightarrow> msg \<Rightarrow> server \<Rightarrow> error + server" where
  "handle_unknown c m s =
     (case js_String (m_type m) of
        Inl e \<Rightarrow> Inl e
      | Inr t \<Rightarrow> Inr (safeSend (Some c) (ErrorMsg (''Unknown message type: '' @ t)) s))"

definition dispatch :: "cid \<Rightarrow> ws \<Rightarrow> msg \<Rightarrow> nat \<Rightarrow> server \<Rightarrow> error + server" where
  "dispatch c w m now s =
     (if m_type m = JStr ''join'' then handle_join c m now s
      else if m_type m = JStr ''signal'' then handle_signal c w m s
      else if m_type m = JStr ''chat'' then handle_chat c w m now s
      else if m_type m = JStr ''leave'' then Inr (ws_close c s)
      else handle_unknown c m s)"

definition on_message :: "cid \<Rightarrow> inbound \<Rightarrow> nat \<Rightarrow> server \<Rightarrow> error + server" where
  "on_message c raw now s =
     (case map_of (wss_clients s) c of
        None \<Rightarrow> Inr s
      | Some w \<Rightarrow>
          (case raw of
             Unparseable \<Rightarrow> Inr (safeSend (Some c) (ErrorMsg ''Invalid JSON'') s)
           | ParsedNull \<Rightarrow> Inl TypeError
           | Parsed m \<Rightarrow> dispatch c w m now s))"

subsection \<open>close\<close>

text \<open>
  Lines 227 to 261. \<open>teardown\<close> is the body of the handler; \<open>on_close\<close> is the event as
  the library delivers it, the socket being closed and out of \<^verbatim>\<open>wss.clients\<close> when the
  handler runs.
\<close>

definition teardown :: "cid \<Rightarrow> ws \<Rightarrow> server \<Rightarrow> server" where
  "teardown c w s =
     (case current_room w of
        None \<Rightarrow> s
      | Some rid \<Rightarrow>
          (case getRoom rid s of
             None \<Rightarrow> s
           | Some rm0 \<Rightarrow>
               (let nm = get_or (map_of (names rm0) c)
                           (if ws_role w = Some Host then ''Host'' else ''Viewer'');
                    rm = remove_member c rm0;
                    s1 = putRoom rid rm s
                in if hostId rm = Some c then
                     (let s2 = broadcast rm (HostLeft rid ''Host left. Room closed.'') s1;
                          s3 = fold ws_close (map snd (clients rm)) s2
                      in deleteRoom rid s3)
                   else
                     (let s2 = (if host_handle rm \<noteq> None
                                then safeSend (host_handle rm) (ViewerLeft rid c) s1 else s1);
                          s3 = broadcast rm (SystemMsg (nm @ '' left.'')) s2
                      in if clients rm = [] then deleteRoom rid s3 else s3))))"

definition on_close :: "cid \<Rightarrow> server \<Rightarrow> server" where
  \<comment> \<open>the \<^verbatim>\<open>close\<close> event: the socket is closed and deregistered, then the handler runs\<close>
  "on_close c s =
     (case map_of (wss_clients s) c of
        None \<Rightarrow> s
      | Some w \<Rightarrow> teardown c w (s\<lparr>wss_clients := AList.delete c (wss_clients s)\<rparr>))"

section \<open>The server as a transition system\<close>

text \<open>
  Each handler runs to completion, so the server is a function from events to states. The
  events are those of the WebSocket library: a new connection (with the identifier
  \<^verbatim>\<open>uuidv4()\<close> gives it, assumed fresh), a message (with the clock reading at its
  arrival), a pong, a tick of the keepalive timer, and the \<^verbatim>\<open>close\<close> event of a socket.
  \<^verbatim>\<open>ws.close()\<close> and \<^verbatim>\<open>ws.terminate()\<close> only start the closing of a socket; its
  \<^verbatim>\<open>close\<close> event is a later event of its own, which the library emits once. Message and
  pong events of a socket that is not registered do not occur and are modelled as no-ops.
  A run stops at the first event whose handler raises.
\<close>

datatype event =
    Connection cid
  | Message cid inbound nat
  | Pong cid
  | Sweep
  | Close cid

fun step :: "event \<Rightarrow> server \<Rightarrow> error + server" where
  "step (Connection c) s = Inr (on_connection c s)"
| "step (Message c raw now) s = on_message c raw now s"
| "step (Pong c) s = Inr (on_pong c s)"
| "step Sweep s = Inr (keepalive s)"
| "step (Close c) s = Inr (on_close c s)"

fun run :: "event list \<Rightarrow> server \<Rightarrow> error + server" where
  "run [] s = Inr s"
| "run (e # es) s = (case step e s of Inl x \<Rightarrow> Inl x | Inr s' \<Rightarrow> run es s')"

section \<open>Predicates used by the properties\<close>

definition index_consistent :: "room \<Rightarrow> bool" where
  "index_consistent rm \<longleftrightarrow>
     fst ` set (clients rm) = fst ` set (roles rm) \<and>
     fst ` set (roles rm) = fst ` set (names rm)"

definition store_consistent :: "server \<Rightarrow> bool" where
  "store_consistent s \<longleftrightarrow> (\<forall>rm \<in> snd ` set (rooms s). index_consistent rm)"

text \<open>Messages used to run the handlers on concrete inputs.\<close>

definition plain_msg :: "string \<Rightarrow> msg" where
  "plain_msg t = \<lparr>m_type = JStr t, m_roomId = JUndefined, m_role = JUndefined,
                   m_name = JUndefined, m_to = JUndefined, m_data = JUndefined,
                   m_message = JUndefined\<rparr>"

definition join_req :: "string \<Rightarrow> string \<Rightarrow> msg" where
  "join_req rid r = (plain_msg ''join'')\<lparr>m_roomId := JStr rid, m_role := JStr r\<rparr>"

definition join_msg :: "string \<Rightarrow> string \<Rightarrow> inbound" where
  "join_msg rid r = Parsed (join_req rid r)"

text \<open>
  States used as concrete inputs. \<open>st_hosted\<close> is the server after connection \<open>h\<close> has
  joined room \<open>R\<close> as host; \<open>st_watched\<close> after connection \<open>v\<close> has then joined it as
  viewer.
\<close>

definition st_hosted :: server where
  "st_hosted =
     \<lparr>rooms = [(''R'', \<lparr>roomId = ''R'', hostId = Some ''h'', clients = [(''h'', ''h'')],
                        roles = [(''h'', Host)], names = [(''h'', ''Host'')], createdAt = 7\<rparr>)],
      wss_clients = [(''h'', \<lparr>isAlive = True, ws_roomId = Some ''R'', ws_role = Some Host,
                             readyState = OPEN\<rparr>)],
      wire = [Send ''h'' (Hello ''h''),
              Send ''h'' (Joined ''R'' ''h'' Host None
                            \<lparr>host = Some (''h'', ''Host''), viewers = []\<rparr>),
              Send ''h'' (SystemMsg ''Host is hosting room R'')]\<rparr>"

definition st_watched :: server where
  "st_watched =
     \<lparr>rooms = [(''R'', \<lparr>roomId = ''R'', hostId = Some ''h'',
                        clients = [(''h'', ''h''), (''v'', ''v'')],
                        roles = [(''h'', Host), (''v'', Viewer)],
                        names = [(''h'', ''Host''), (''v'', ''Viewer'')], createdAt = 7\<rparr>)],
      wss_clients = [(''h'', \<lparr>isAlive = True, ws_roomId = Some ''R'', ws_role = Some Host,
                             readyState = OPEN\<rparr>),
                     (''v'', \<lparr>isAlive = True, ws_roomId = Some ''R'', ws_role = Some Viewer,
                             readyState = OPEN\<rparr>)],
      wire = wire st_hosted @
             [Send ''v'' (Hello ''v''),
              Send ''v'' (Joined ''R'' ''v'' Viewer (Some ''h'')
                            \<lparr>host = Some (''h'', ''Host''), viewers = [(''v'', ''Viewer'')]\<rparr>),
              Send ''h'' (ViewerJoined ''R'' ''v'' ''Viewer''),
              Send ''h'' (SystemMsg ''Viewer joined.''),
              Send ''v'' (SystemMsg ''Viewer joined.'')]\<rparr>"

definition is_error_reply :: "effect \<Rightarrow> bool" where
  "is_error_reply e = (case e of Send h (ErrorMsg t) \<Rightarrow> True | _ \<Rightarrow> False)"

definition sent_since :: "server \<Rightarrow> server \<Rightarrow> effect list" where
  \<comment> \<open>the library calls made between two states of one handler run\<close>
  "sent_since s s' = drop (length (wire s)) (wire s')"

text \<open>
  \<open>rm_superseded\<close> is room \<open>R\<close> of \<open>st_watched\<close> after a further connection \<open>g\<close> has
  joined it as host.
\<close>

definition rm_superseded :: room where
  "rm_superseded =
     \<lparr>roomId = ''R'', hostId = Some ''g'',
      clients = [(''h'', ''h''), (''v'', ''v''), (''g'', ''g'')],
      roles = [(''h'', Host), (''v'', Viewer), (''g'', Host)],
      names = [(''h'', ''Host''), (''v'', ''Viewer''), (''g'', ''Host'')], createdAt = 7\<rparr>"

definition no_error_between :: "server \<Rightarrow> server \<Rightarrow> bool" where
  "no_error_between s s' \<longleftrightarrow>
     (\<exists>xs. wire s' = wire s @ xs \<and> (\<forall>x \<in> set xs. \<not> is_error_reply x))"

definition signal_req :: "string \<Rightarrow> jsval \<Rightarrow> msg" where
  "signal_req t d = (plain_msg ''signal'')\<lparr>m_to := JStr t, m_data := d\<rparr>"

definition chat_req :: "string \<Rightarrow> msg" where
  "chat_req t = (plain_msg ''chat'')\<lparr>m_message := JStr t\<rparr>"

text \<open>
  \<open>st_zombie\<close> is the server after \<open>h\<close> has joined \<open>R\<close> as host, \<open>v\<close> has joined \<open>R\<close> as
  viewer, \<open>h\<close> has then joined \<open>S\<close> as host and the connection \<open>h\<close> has closed.
\<close>

definition zombie_trace :: "event list" where
  "zombie_trace =
     [Connection ''h'', Message ''h'' (join_msg ''R'' ''host'') 7,
      Connection ''v'', Message ''v'' (join_msg ''R'' ''viewer'') 8,
      Message ''h'' (join_msg ''S'' ''host'') 9,
      Close ''h'']"

definition st_zombie :: server where
  "st_zombie =
     \<lparr>rooms = [(''R'', \<lparr>roomId = ''R'', hostId = Some ''h'',
                        clients = [(''h'', ''h''), (''v'', ''v'')],
                        roles = [(''h'', Host), (''v'', Viewer)],
                        names = [(''h'', ''Host''), (''v'', ''Viewer'')], createdAt = 7\<rparr>)],
      wss_clients = [(''v'', \<lparr>isAlive = True, ws_roomId = Some ''R'', ws_role = Some Viewer,
                             readyState = OPEN\<rparr>)],
      wire = wire st_watched @
             [Send ''h'' (Joined ''S'' ''h'' Host None
                            \<lparr>host = Some (''h'', ''Host''), viewers = []\<rparr>),
              Send ''h'' (SystemMsg ''Host is hosting room S'')]\<rparr>"





definition liveness :: "server \<Rightarrow> (cid \<times> bool) list" where
  \<comment> \<open>the registered sockets with their liveness flags\<close>
  "liveness s = map (\<lambda>(k, w). (k, isAlive w)) (wss_clients s)"

text \<open>
  \<open>st_fresh\<close> is the server with one connection \<open>v\<close> and no room. \<open>odd_type_msg\<close> is the
  parsed form of the message text \<^verbatim>\<open>{"type":{"toString":1}}\<close>.
\<close>

definition st_fresh :: server where
  "st_fresh =
     \<lparr>rooms = [],
      wss_clients = [(''v'', \<lparr>isAlive = True, ws_roomId = None, ws_role = None,
                             readyState = OPEN\<rparr>)],
      wire = [Send ''v'' (Hello ''v'')]\<rparr>"

definition odd_type_msg :: msg where
  "odd_type_msg = (plain_msg [])\<lparr>m_type := JObject None\<rparr>"

text \<open>
  Parsed forms of three messages that carry the object \<^verbatim>\<open>{"toString":1}\<close> in a field:
  \<^verbatim>\<open>{"type":"join","roomId":rid,"role":"host","name":{"toString":1}}\<close>,
  \<^verbatim>\<open>{"type":"signal","to":{"toString":1},"data":"x"}\<close> and
  \<^verbatim>\<open>{"type":"chat","message":{"toString":1}}\<close>.
\<close>

definition odd_name_join :: "string \<Rightarrow> msg" where
  "odd_name_join rid = (join_req rid ''host'')\<lparr>m_name := JObject None\<rparr>"

definition odd_signal :: msg where
  "odd_signal = (plain_msg ''signal'')\<lparr>m_to := JObject None, m_data := JStr ''x''\<rparr>"

definition odd_chat :: msg where
  "odd_chat = (plain_msg ''chat'')\<lparr>m_message := JObject None\<rparr>"

section \<open>Frame lemmas\<close>

lemma emit_fields [simp]:
  "rooms (emit e s) = rooms s" "wss_clients (emit e s) = wss_clients s"
  "wire (emit e s) = wire s @ [e]"
  by (simp_all add: emit_def)

lemma is_open_cong: "wss_clients s = wss_clients s' \<Longrightarrow> is_open s = is_open s'"
  by (simp add: is_open_def fun_eq_iff)

lemma is_open_emit [simp]: "is_open (emit e s) h = is_open s h"
  by (simp add: is_open_def)

lemma safeSend_fields [simp]:
  "rooms (safeSend t obj s) = rooms s" "wss_clients (safeSend t obj s) = wss_clients s"
  by (simp_all add: safeSend_def split: option.splits)

lemma wire_safeSend:
  "wire (safeSend t obj s) =
     wire s @ (case t of None \<Rightarrow> [] | Some h \<Rightarrow> if is_open s h then [Send h obj] else [])"
  by (simp add: safeSend_def split: option.splits)

lemma is_open_safeSend [simp]: "is_open (safeSend t obj s) h = is_open s h"
  by (simp add: is_open_def)

lemma fold_safeSend_fields:
  "rooms (fold (\<lambda>h. safeSend (Some h) obj) hs s) = rooms s \<and>
   wss_clients (fold (\<lambda>h. safeSend (Some h) obj) hs s) = wss_clients s \<and>
   wire (fold (\<lambda>h. safeSend (Some h) obj) hs s) =
     wire s @ map (\<lambda>h. Send h obj) (filter (is_open s) hs)"
proof (induction hs arbitrary: s)
  case Nil
  show ?case by simp
next
  case (Cons h hs)
  have o: "is_open (safeSend (Some h) obj s) = is_open s"
    by (simp add: fun_eq_iff)
  show ?case
    by (simp add: Cons.IH o wire_safeSend)
qed

lemma broadcast_fields [simp]:
  "rooms (broadcast rm obj s) = rooms s" "wss_clients (broadcast rm obj s) = wss_clients s"
  by (simp_all add: broadcast_def fold_safeSend_fields)

lemma wire_broadcast:
  "wire (broadcast rm obj s) =
     wire s @ map (\<lambda>h. Send h obj) (filter (is_open s) (map snd (clients rm)))"
  by (simp add: broadcast_def fold_safeSend_fields)

lemma is_open_broadcast [simp]: "is_open (broadcast rm obj s) h = is_open s h"
  by (simp add: is_open_def)

lemma notify_viewers_fields [simp]:
  "rooms (notify_viewers c rm s) = rooms s"
  "wss_clients (notify_viewers c rm s) = wss_clients s"
proof -
  have "rooms (fold (\<lambda>(i, r) s'. if r = Viewer \<and> i \<noteq> c
                        then safeSend (map_of (clients rm) i) (HostReady c) s' else s') xs s) = rooms s
      \<and> wss_clients (fold (\<lambda>(i, r) s'. if r = Viewer \<and> i \<noteq> c
                        then safeSend (map_of (clients rm) i) (HostReady c) s' else s') xs s) = wss_clients s"
    for xs
    by (induction xs arbitrary: s) (auto split: prod.splits)
  then show "rooms (notify_viewers c rm s) = rooms s"
    "wss_clients (notify_viewers c rm s) = wss_clients s"
    by (simp_all add: notify_viewers_def)
qed

lemma set_ws_fields [simp]:
  "rooms (set_ws c f s) = rooms s" "wire (set_ws c f s) = wire s"
  "wss_clients (set_ws c f s) = AList.map_entry c f (wss_clients s)"
  by (simp_all add: set_ws_def)

lemma putRoom_fields [simp]:
  "rooms (putRoom rid rm s) = AList.update rid rm (rooms s)"
  "wss_clients (putRoom rid rm s) = wss_clients s" "wire (putRoom rid rm s) = wire s"
  by (simp_all add: putRoom_def)

lemma deleteRoom_fields [simp]:
  "rooms (deleteRoom rid s) = AList.delete rid (rooms s)"
  "wss_clients (deleteRoom rid s) = wss_clients s" "wire (deleteRoom rid s) = wire s"
  by (simp_all add: deleteRoom_def)

lemma ws_close_fields [simp]:
  "rooms (ws_close h s) = rooms s" "wire (ws_close h s) = wire s @ [CloseCall h]"
  "wss_clients (ws_close h s) = AList.map_entry h (\<lambda>w. w\<lparr>readyState := CLOSING\<rparr>) (wss_clients s)"
  by (simp_all add: ws_close_def)

lemma ws_terminate_fields [simp]:
  "rooms (ws_terminate h s) = rooms s" "wire (ws_terminate h s) = wire s @ [TerminateCall h]"
  "wss_clients (ws_terminate h s) = AList.map_entry h (\<lambda>w. w\<lparr>readyState := CLOSING\<rparr>) (wss_clients s)"
  by (simp_all add: ws_terminate_def)

lemma fold_ws_close_fields:
  "rooms (fold ws_close hs s) = rooms s \<and> wire (fold ws_close hs s) = wire s @ map CloseCall hs"
  by (induction hs arbitrary: s) simp_all

lemma is_open_ws_close: "is_open (ws_close h s) h' = (h' \<noteq> h \<and> is_open s h')"
  by (auto simp add: is_open_def AList.map_of_map_entry split: option.splits)

lemma is_open_fold_ws_close:
  "is_open (fold ws_close hs s) h' = (h' \<notin> set hs \<and> is_open s h')"
  by (induction hs arbitrary: s) (auto simp add: is_open_ws_close)

lemma probe_rooms [simp]: "rooms (probe c s) = rooms s"
  by (simp add: probe_def split: option.splits)

lemma keepalive_rooms [simp]: "rooms (keepalive s) = rooms s"
proof -
  have "rooms (fold probe ks s) = rooms s" for ks
    by (induction ks arbitrary: s) simp_all
  then show ?thesis by (simp add: keepalive_def)
qed

section \<open>Index consistency is preserved by every handler\<close>

lemma set_update_subset: "set (AList.update k v al) \<subseteq> insert (k, v) (set al)"
  by (induction al) auto

lemma set_delete_subset: "set (AList.delete k al) \<subseteq> set al"
  by (auto simp add: AList.delete_eq)

lemma store_consistent_rooms: "rooms s' = rooms s \<Longrightarrow> store_consistent s' = store_consistent s"
  by (simp add: store_consistent_def)

lemma store_consistent_update:
  assumes "store_consistent s" "index_consistent rm" "rooms s' = AList.update rid rm (rooms s)"
  shows "store_consistent s'"
  using assms set_update_subset [of rid rm "rooms s"]
  unfolding store_consistent_def by fastforce

lemma store_consistent_delete:
  assumes "store_consistent s" "rooms s' = AList.delete rid (rooms s)"
  shows "store_consistent s'"
  using assms set_delete_subset [of rid "rooms s"]
  unfolding store_consistent_def by fastforce

lemma store_consistent_lookup:
  assumes "store_consistent s" "map_of (rooms s) rid = Some rm"
  shows "index_consistent rm"
proof -
  have "(rid, rm) \<in> set (rooms s)" using assms(2) by (rule map_of_SomeD)
  then have "rm \<in> snd ` set (rooms s)" by force
  with assms(1) show ?thesis by (auto simp add: store_consistent_def)
qed

lemma index_consistent_insert_member:
  "index_consistent rm \<Longrightarrow> index_consistent (insert_member c r nm rm)"
  by (simp add: index_consistent_def insert_member_def AList.dom_update)

lemma dom_delete: "fst ` set (AList.delete k al) = fst ` set al - {k}"
  by (induction al) auto

lemma index_consistent_remove_member:
  "index_consistent rm \<Longrightarrow> index_consistent (remove_member c rm)"
  by (simp add: index_consistent_def remove_member_def dom_delete)

lemma index_consistent_hostId [simp]:
  "index_consistent (rm\<lparr>hostId := h\<rparr>) = index_consistent rm"
  by (simp add: index_consistent_def)

lemma ensureRoom_consistent:
  assumes "store_consistent s" "ensureRoom rid now s = (rm, s1)"
  shows "store_consistent s1 \<and> index_consistent rm"
proof (cases "map_of (rooms s) rid")
  case None
  let ?new = "\<lparr>roomId = rid, hostId = None, clients = [], roles = [], names = [], createdAt = now\<rparr>"
  have e: "rm = ?new" "rooms s1 = AList.update rid ?new (rooms s)"
    using assms(2) None by (auto simp add: ensureRoom_def Let_def)
  have n: "index_consistent ?new" by (simp add: index_consistent_def)
  show ?thesis using store_consistent_update [OF assms(1) n e(2)] n e(1) by simp
next
  case (Some r)
  then have "rm = r" "s1 = s" using assms(2) by (auto simp add: ensureRoom_def)
  then show ?thesis using assms(1) Some store_consistent_lookup by blast
qed

lemma join_host_consistent:
  assumes "store_consistent s" "index_consistent rm"
  shows "store_consistent (join_host c rid nm rm s)"
proof -
  have r: "rooms (join_host c rid nm rm s) = AList.update rid (rm\<lparr>hostId := Some c\<rparr>) (rooms s)"
    by (simp add: join_host_def Let_def)
  have i: "index_consistent (rm\<lparr>hostId := Some c\<rparr>)" using assms(2) by simp
  show ?thesis using assms(1) i r by (rule store_consistent_update)
qed

lemma join_viewer_consistent:
  assumes "store_consistent s" "index_consistent rm"
  shows "store_consistent (join_viewer c rid nm rm s)"
proof (cases "host_handle rm = None")
  case True
  then have "rooms (join_viewer c rid nm rm s) = AList.update rid (remove_member c rm) (rooms s)"
    by (simp add: join_viewer_def Let_def)
  then show ?thesis
    using store_consistent_update [OF assms(1) index_consistent_remove_member [OF assms(2)]]
    by blast
next
  case False
  then have "rooms (join_viewer c rid nm rm s) = rooms s"
    by (simp add: join_viewer_def Let_def del: not_None_eq)
  then show ?thesis using assms(1) store_consistent_rooms by blast
qed

lemma handle_join_consistent:
  assumes "store_consistent s" "handle_join c m now s = Inr s'"
  shows "store_consistent s'"
proof (cases "join_fields m")
  case (Inl e)
  then show ?thesis using assms(2) by (simp add: handle_join_def)
next
  case (Inr f)
  obtain rid r nm where f: "f = (rid, r, nm)" by (cases f)
  show ?thesis
  proof (cases "rid = []")
    case True
    then have "rooms s' = rooms s" using assms(2) Inr f by (auto simp add: handle_join_def)
    then show ?thesis using assms(1) store_consistent_rooms by blast
  next
    case False
    obtain rm0 s1 where en: "ensureRoom rid now s = (rm0, s1)" by (cases "ensureRoom rid now s")
    define rm where "rm = insert_member c r nm rm0"
    define s3 where "s3 = set_ws c (\<lambda>w. w\<lparr>ws_roomId := Some rid, ws_role := Some r\<rparr>) (putRoom rid rm s1)"
    have c1: "store_consistent s1" "index_consistent rm0"
      using ensureRoom_consistent [OF assms(1) en] by simp_all
    have crm: "index_consistent rm" unfolding rm_def using c1(2) by (rule index_consistent_insert_member)
    have "rooms s3 = AList.update rid rm (rooms s1)" by (simp add: s3_def)
    then have c3: "store_consistent s3" using store_consistent_update [OF c1(1) crm] by blast
    have "s' = (if r = Host then join_host c rid nm rm s3 else join_viewer c rid nm rm s3)"
      using assms(2) Inr f False en by (auto simp add: handle_join_def rm_def s3_def Let_def)
    then show ?thesis using join_host_consistent [OF c3 crm] join_viewer_consistent [OF c3 crm]
      by simp
  qed
qed

lemma handle_signal_rooms: "handle_signal c w m s = Inr s' \<Longrightarrow> rooms s' = rooms s"
  by (auto simp add: handle_signal_def Let_def split: option.splits sum.splits if_splits)

lemma handle_chat_rooms: "handle_chat c w m now s = Inr s' \<Longrightarrow> rooms s' = rooms s"
  by (auto simp add: handle_chat_def Let_def split: option.splits sum.splits if_splits)

lemma handle_unknown_rooms: "handle_unknown c m s = Inr s' \<Longrightarrow> rooms s' = rooms s"
  by (auto simp add: handle_unknown_def split: sum.splits)

lemma on_message_consistent:
  assumes "store_consistent s" "on_message c raw now s = Inr s'"
  shows "store_consistent s'"
proof (cases "map_of (wss_clients s) c")
  case None
  then show ?thesis using assms by (simp add: on_message_def)
next
  case (Some w)
  show ?thesis
  proof (cases raw)
    case Unparseable
    then have "rooms s' = rooms s" using assms(2) Some by (auto simp add: on_message_def)
    then show ?thesis using assms(1) store_consistent_rooms by blast
  next
    case ParsedNull
    then show ?thesis using assms(2) Some by (simp add: on_message_def)
  next
    case (Parsed m)
    then have d: "dispatch c w m now s = Inr s'" using assms(2) Some by (simp add: on_message_def)
    consider (j) "handle_join c m now s = Inr s'" | (o) "rooms s' = rooms s"
      using d handle_signal_rooms handle_chat_rooms handle_unknown_rooms
      by (fastforce simp add: dispatch_def split: if_splits)
    then show ?thesis
    proof cases
      case j
      then show ?thesis using assms(1) handle_join_consistent by blast
    next
      case o
      then show ?thesis using assms(1) store_consistent_rooms by blast
    qed
  qed
qed

lemma teardown_consistent:
  assumes "store_consistent s"
  shows "store_consistent (teardown c w s)"
proof (cases "current_room w")
  case None
  then show ?thesis using assms by (simp add: teardown_def)
next
  case (Some rid)
  show ?thesis
  proof (cases "getRoom rid s")
    case None
    then show ?thesis using assms Some by (simp add: teardown_def)
  next
    case (Some rm0)
    then have "index_consistent rm0" using assms store_consistent_lookup by (simp add: getRoom_def)
    then have crm: "index_consistent (remove_member c rm0)" by (rule index_consistent_remove_member)
    have c1: "store_consistent (putRoom rid (remove_member c rm0) s)"
      using store_consistent_update [OF assms crm] by simp
    have "rooms (teardown c w s) = AList.update rid (remove_member c rm0) (rooms s)
        \<or> rooms (teardown c w s) = AList.delete rid (AList.update rid (remove_member c rm0) (rooms s))"
      using Some \<open>current_room w = Some rid\<close>
      by (simp add: teardown_def Let_def fold_ws_close_fields)
    then show ?thesis
      using c1 store_consistent_delete [OF c1, of "teardown c w s" rid]
        store_consistent_rooms [of "teardown c w s" "putRoom rid (remove_member c rm0) s"]
      by auto
  qed
qed

lemma on_close_consistent:
  assumes "store_consistent s"
  shows "store_consistent (on_close c s)"
proof (cases "map_of (wss_clients s) c")
  case None
  then show ?thesis using assms by (simp add: on_close_def)
next
  case (Some w)
  have "store_consistent (s\<lparr>wss_clients := AList.delete c (wss_clients s)\<rparr>)"
    using assms by (simp add: store_consistent_def)
  then show ?thesis using Some teardown_consistent by (simp add: on_close_def)
qed

lemma step_consistent:
  assumes "store_consistent s" "step e s = Inr s'"
  shows "store_consistent s'"
proof (cases e)
  case (Connection c)
  then have "rooms s' = rooms s" using assms(2) by (auto simp add: on_connection_def)
  then show ?thesis using assms(1) store_consistent_rooms by blast
next
  case (Message c raw now)
  then show ?thesis using assms on_message_consistent by simp
next
  case (Pong c)
  then have "rooms s' = rooms s" using assms(2) by (auto simp add: on_pong_def)
  then show ?thesis using assms(1) store_consistent_rooms by blast
next
  case Sweep
  then have "rooms s' = rooms s" using assms(2) by auto
  then show ?thesis using assms(1) store_consistent_rooms by blast
next
  case (Close c)
  then show ?thesis using assms on_close_consistent by auto
qed

lemma run_consistent:
  "store_consistent s \<Longrightarrow> run es s = Inr s' \<Longrightarrow> store_consistent s'"
proof (induction es arbitrary: s)
  case Nil
  then show ?case by simp
next
  case (Cons e es)
  then show ?case
    by (cases "step e s") (auto dest: step_consistent)
qed

lemma st_hosted_reached:
  "run [Connection ''h'', Message ''h'' (join_msg ''R'' ''host'') 7] init_server = Inr st_hosted"
  by code_simp

lemma st_watched_reached:
  "run [Connection ''v'', Message ''v'' (join_msg ''R'' ''viewer'') 8] st_hosted = Inr st_watched"
  by code_simp

section \<open>The join handler\<close>

lemma on_message_join:
  "map_of (wss_clients s) c = Some w \<Longrightarrow> m_type m = JStr ''join'' \<Longrightarrow>
   on_message c (Parsed m) now s = handle_join c m now s"
  by (simp add: on_message_def dispatch_def)

lemma join_fields_rendered:
  assumes "js_String (js_or (m_roomId m) (JStr [])) = Inr raw"
      and "js_String (js_or (m_name m) (JStr [])) = Inr rn"
  shows "join_fields m =
           Inr (trim raw, (if m_role m = JStr ''host'' then Host else Viewer),
                str_or (take 40 (trim rn))
                  (if m_role m = JStr ''host'' then ''Host'' else ''Viewer''))"
  using assms by (simp add: join_fields_def Let_def)

lemma handle_join_unfold:
  assumes "join_fields m = Inr (rid, r, nm)" "rid \<noteq> []" "ensureRoom rid now s = (rm0, s1)"
  shows "handle_join c m now s =
           Inr (if r = Host
                then join_host c rid nm (insert_member c r nm rm0)
                       (set_ws c (\<lambda>w. w\<lparr>ws_roomId := Some rid, ws_role := Some r\<rparr>)
                          (putRoom rid (insert_member c r nm rm0) s1))
                else join_viewer c rid nm (insert_member c r nm rm0)
                       (set_ws c (\<lambda>w. w\<lparr>ws_roomId := Some rid, ws_role := Some r\<rparr>)
                          (putRoom rid (insert_member c r nm rm0) s1)))"
  using assms by (simp add: handle_join_def Let_def)

lemma ensureRoom_existing:
  "getRoom rid s = Some rm0 \<Longrightarrow> ensureRoom rid now s = (rm0, s)"
  by (simp add: ensureRoom_def getRoom_def)

lemma ensureRoom_others:
  assumes "ensureRoom rid now s = (rm0, s1)" "rid' \<noteq> rid"
  shows "map_of (rooms s1) rid' = map_of (rooms s) rid'"
  using assms
  by (cases "map_of (rooms s) rid") (auto simp add: ensureRoom_def Let_def AList.update_conv')

lemma ensureRoom_frame:
  assumes "ensureRoom rid now s = (rm0, s1)"
  shows "wss_clients s1 = wss_clients s" "wire s1 = wire s"
  using assms
  by (cases "map_of (rooms s) rid"; auto simp add: ensureRoom_def Let_def)+

lemma rooms_join_host:
  "rooms (join_host c rid nm rm s) = AList.update rid (rm\<lparr>hostId := Some c\<rparr>) (rooms s)"
  by (simp add: join_host_def Let_def)

lemma wss_clients_join_host: "wss_clients (join_host c rid nm rm s) = wss_clients s"
  by (simp add: join_host_def Let_def)

lemma rooms_join_viewer_ok:
  "host_handle rm \<noteq> None \<Longrightarrow> rooms (join_viewer c rid nm rm s) = rooms s"
  by (simp add: join_viewer_def Let_def del: not_None_eq)

lemma wss_clients_join_viewer_ok:
  "host_handle rm \<noteq> None \<Longrightarrow> wss_clients (join_viewer c rid nm rm s) = wss_clients s"
  by (simp add: join_viewer_def Let_def del: not_None_eq)

lemma map_of_insert_member_other:
  "p \<noteq> c \<Longrightarrow>
   map_of (clients (insert_member c r nm rm)) p = map_of (clients rm) p \<and>
   map_of (roles (insert_member c r nm rm)) p = map_of (roles rm) p \<and>
   map_of (names (insert_member c r nm rm)) p = map_of (names rm) p"
  by (simp add: insert_member_def AList.update_conv')

lemma map_of_insert_member_self:
  "map_of (clients (insert_member c r nm rm)) c = Some c \<and>
   map_of (roles (insert_member c r nm rm)) c = Some r \<and>
   map_of (names (insert_member c r nm rm)) c = Some nm"
  by (simp add: insert_member_def AList.update_conv')

lemma takeover_result:
  "map_option (\<lambda>t. getRoom ''R'' t)
     (case on_message ''g'' (join_msg ''R'' ''host'') 9 (on_connection ''g'' st_watched) of
        Inl e \<Rightarrow> None | Inr t \<Rightarrow> Some t) = Some (Some rm_superseded)"
  by code_simp

section \<open>What a join writes to the sockets\<close>

lemma sent_since_append: "wire s' = wire s @ xs \<Longrightarrow> sent_since s s' = xs"
  by (simp add: sent_since_def)

lemma no_error_between_refl: "wire s' = wire s \<Longrightarrow> no_error_between s s'"
  by (simp add: no_error_between_def)

lemma no_error_between_trans:
  assumes "no_error_between s s1" "no_error_between s1 s2"
  shows "no_error_between s s2"
proof -
  obtain xs where x: "wire s1 = wire s @ xs" "\<forall>x \<in> set xs. \<not> is_error_reply x"
    using assms(1) by (auto simp add: no_error_between_def)
  obtain ys where y: "wire s2 = wire s1 @ ys" "\<forall>x \<in> set ys. \<not> is_error_reply x"
    using assms(2) by (auto simp add: no_error_between_def)
  have "wire s2 = wire s @ (xs @ ys)" using x(1) y(1) by simp
  moreover have "\<forall>x \<in> set (xs @ ys). \<not> is_error_reply x" using x(2) y(2) by auto
  ultimately show ?thesis unfolding no_error_between_def by blast
qed

lemma no_error_safeSend:
  assumes "\<forall>t. obj \<noteq> ErrorMsg t"
  shows "no_error_between s (safeSend h obj s)"
proof -
  have "\<not> is_error_reply (Send k obj)" for k
    using assms by (cases obj) (simp_all add: is_error_reply_def)
  then show ?thesis
    unfolding no_error_between_def wire_safeSend by (auto split: option.splits)
qed

lemma no_error_broadcast:
  assumes "\<forall>t. obj \<noteq> ErrorMsg t"
  shows "no_error_between s (broadcast rm obj s)"
proof -
  have "\<not> is_error_reply (Send k obj)" for k
    using assms by (cases obj) (simp_all add: is_error_reply_def)
  then show ?thesis
    unfolding no_error_between_def wire_broadcast by auto
qed

lemma no_error_notify_viewers: "no_error_between s (notify_viewers c rm s)"
proof -
  let ?f = "\<lambda>(i, r) s'. if r = Viewer \<and> i \<noteq> c
                        then safeSend (map_of (clients rm) i) (HostReady c) s' else s'"
  have "no_error_between s (fold ?f ys s)" for ys
  proof (induction ys arbitrary: s)
    case Nil
    show ?case by (simp add: no_error_between_refl)
  next
    case (Cons y ys)
    have "no_error_between s (?f y s)"
      by (cases y) (simp add: no_error_safeSend no_error_between_refl)
    then show ?case using Cons.IH [of "?f y s"] no_error_between_trans by simp
  qed
  then show ?thesis by (simp add: notify_viewers_def)
qed

lemma no_error_join_host: "no_error_between s (join_host c rid nm rm s)"
proof -
  define rm' where "rm' = rm\<lparr>hostId := Some c\<rparr>"
  define s1 where "s1 = putRoom rid rm' s"
  define s2 where "s2 = safeSend (Some c) (Joined rid c Host None (roster rm')) s1"
  define s3 where "s3 = broadcast rm' (SystemMsg (nm @ '' is hosting room '' @ rid)) s2"
  have e: "join_host c rid nm rm s = notify_viewers c rm' s3"
    by (simp add: join_host_def Let_def rm'_def s1_def s2_def s3_def)
  have a: "no_error_between s s1" by (simp add: s1_def no_error_between_refl)
  have b: "no_error_between s1 s2" unfolding s2_def by (rule no_error_safeSend) simp
  have c: "no_error_between s2 s3" unfolding s3_def by (rule no_error_broadcast) simp
  have d: "no_error_between s3 (notify_viewers c rm' s3)" by (rule no_error_notify_viewers)
  show ?thesis unfolding e using a b c d no_error_between_trans by blast
qed

lemma no_error_join_viewer_ok:
  assumes "host_handle rm \<noteq> None"
  shows "no_error_between s (join_viewer c rid nm rm s)"
proof -
  define s1 where "s1 = safeSend (Some c) (Joined rid c Viewer (hostId rm) (roster rm)) s"
  define s2 where "s2 = safeSend (host_handle rm) (ViewerJoined rid c nm) s1"
  have e: "join_viewer c rid nm rm s = broadcast rm (SystemMsg (nm @ '' joined.'')) s2"
    using assms by (simp add: join_viewer_def Let_def s1_def s2_def del: not_None_eq)
  have a: "no_error_between s s1" unfolding s1_def by (rule no_error_safeSend) simp
  have b: "no_error_between s1 s2" unfolding s2_def by (rule no_error_safeSend) simp
  have c: "no_error_between s2 (broadcast rm (SystemMsg (nm @ '' joined.'')) s2)"
    by (rule no_error_broadcast) simp
  show ?thesis unfolding e using a b c no_error_between_trans by blast
qed

lemma host_handle_insert_member:
  assumes "hostId rm = Some h" "h \<noteq> []" "map_of (clients rm) h \<noteq> None"
  shows "host_handle (insert_member c r nm rm) \<noteq> None"
  using assms by (auto simp add: host_handle_def insert_member_def AList.update_conv')

lemma map_of_set_ws_self:
  "map_of (wss_clients s) c = Some w \<Longrightarrow> map_of (wss_clients (set_ws c f s)) c = Some (f w)"
  by (simp add: AList.map_of_map_entry)

section \<open>Relay handlers\<close>

lemma current_room_Some: "ws_roomId w = Some rid \<Longrightarrow> rid \<noteq> [] \<Longrightarrow> current_room w = Some rid"
  by (simp add: current_room_def)

lemma on_message_signal:
  "map_of (wss_clients s) c = Some w \<Longrightarrow> m_type m = JStr ''signal'' \<Longrightarrow>
   on_message c (Parsed m) now s = handle_signal c w m s"
  by (simp add: on_message_def dispatch_def)

lemma on_message_chat:
  "map_of (wss_clients s) c = Some w \<Longrightarrow> m_type m = JStr ''chat'' \<Longrightarrow>
   on_message c (Parsed m) now s = handle_chat c w m now s"
  by (simp add: on_message_def dispatch_def)

section \<open>The close handler\<close>

lemma zombie_reached: "run zombie_trace init_server = Inr st_zombie"
  by code_simp

lemma remove_member_hostId [simp]: "hostId (remove_member c rm) = hostId rm"
  by (simp add: remove_member_def)

lemma remove_member_clients [simp]: "clients (remove_member c rm) = AList.delete c (clients rm)"
  by (simp add: remove_member_def)

lemma is_open_rooms_update [simp]:
  "is_open (putRoom rid rm s) h = is_open s h" "is_open (deleteRoom rid s) h = is_open s h"
  by (simp_all add: is_open_def)

lemma unregistered_ws_close:
  "map_of (wss_clients s) c = None \<Longrightarrow> map_of (wss_clients (ws_close h s)) c = None"
  by (auto simp add: AList.map_of_map_entry)

lemma unregistered_fold_ws_close:
  "map_of (wss_clients s) c = None \<Longrightarrow> map_of (wss_clients (fold ws_close hs s)) c = None"
proof (induction hs arbitrary: s)
  case Nil
  then show ?case by simp
next
  case (Cons h hs)
  have "map_of (wss_clients (ws_close h s)) c = None"
    using Cons.prems by (rule unregistered_ws_close)
  then show ?case using Cons.IH by simp
qed


lemma teardown_host:
  assumes "current_room w = Some rid" "getRoom rid s = Some rm0" "hostId rm0 = Some c"
  shows "teardown c w s =
           deleteRoom rid
             (fold ws_close (map snd (AList.delete c (clients rm0)))
                (broadcast (remove_member c rm0) (HostLeft rid ''Host left. Room closed.'')
                   (putRoom rid (remove_member c rm0) s)))"
  using assms by (simp add: teardown_def Let_def)

section \<open>The liveness sweep\<close>







lemma liveness_cong: "wss_clients s' = wss_clients s \<Longrightarrow> liveness s' = liveness s"
  by (simp add: liveness_def)

lemma liveness_map_entry:
  assumes "\<And>w. isAlive (f w) = isAlive w"
  shows "map (\<lambda>(k, w). (k, isAlive w)) (AList.map_entry c f xs) = map (\<lambda>(k, w). (k, isAlive w)) xs"
proof (induction xs)
  case Nil
  show ?case by simp
next
  case (Cons p xs)
  obtain k w where p: "p = (k, w)" by (cases p)
  show ?case using Cons.IH assms [of w] by (simp add: p)
qed

lemma liveness_set_ws:
  "(\<And>w. isAlive (f w) = isAlive w) \<Longrightarrow> liveness (set_ws c f s) = liveness s"
  by (simp add: liveness_def liveness_map_entry)

lemma liveness_ws_close [simp]: "liveness (ws_close h s) = liveness s"
  by (simp add: ws_close_def liveness_set_ws liveness_cong [of "emit (CloseCall h) s" s])

lemma liveness_fold_ws_close [simp]: "liveness (fold ws_close hs s) = liveness s"
  by (induction hs arbitrary: s) simp_all

lemma liveness_simple [simp]:
  "liveness (safeSend t obj s) = liveness s"
  "liveness (broadcast rm obj s) = liveness s"
  "liveness (notify_viewers c rm s) = liveness s"
  "liveness (putRoom rid rm s) = liveness s"
  "liveness (deleteRoom rid s) = liveness s"
  "liveness (emit e s) = liveness s"
  by (simp_all add: liveness_def)

lemma liveness_join_host [simp]: "liveness (join_host c rid nm rm s) = liveness s"
  by (simp add: liveness_def wss_clients_join_host)

lemma liveness_join_viewer [simp]: "liveness (join_viewer c rid nm rm s) = liveness s"
  by (simp add: join_viewer_def Let_def liveness_set_ws)






lemma liveness_teardown [simp]: "liveness (teardown c w s) = liveness s"
  by (simp add: teardown_def Let_def split: option.splits)















section \<open>Rejected viewer joins and unrecognised messages\<close>

lemma st_fresh_reached: "run [Connection ''v''] init_server = Inr st_fresh"
  by code_simp

lemma rejected_viewer_join_creates_room:
  assumes reg: "map_of (wss_clients s) c = Some w"
      and ty: "m_type m = JStr ''join''"
      and ro: "m_role m \<noteq> JStr ''host''"
      and rid: "js_String (js_or (m_roomId m) (JStr [])) = Inr raw"
      and ne: "trim raw \<noteq> []"
      and nm: "js_String (js_or (m_name m) (JStr [])) = Inr rn"
      and unseen: "getRoom (trim raw) s = None"
  shows "\<exists>s'. on_message c (Parsed m) now s = Inr s' \<and>
           getRoom (trim raw) s' =
             Some \<lparr>roomId = trim raw, hostId = None, clients = [], roles = [], names = [],
                   createdAt = now\<rparr> \<and>
           (\<forall>rid'. rid' \<noteq> trim raw \<longrightarrow> getRoom rid' s' = getRoom rid' s) \<and>
           map_of (wss_clients s') c = Some (w\<lparr>ws_roomId := None, ws_role := None\<rparr>) \<and>
           wire s' = wire s @ (if is_open s c
                               then [Send c (ErrorMsg ''Room exists but host is not online yet.'')]
                               else [])"
proof -
  define name where "name = str_or (take 40 (trim rn)) ''Viewer''"
  define rm0 where "rm0 = \<lparr>roomId = trim raw, hostId = None, clients = [], roles = [], names = [],
                            createdAt = now\<rparr>"
  define s1 where "s1 = s\<lparr>rooms := AList.update (trim raw) rm0 (rooms s)\<rparr>"
  define rm where "rm = insert_member c Viewer name rm0"
  define s3 where "s3 = set_ws c (\<lambda>w. w\<lparr>ws_roomId := Some (trim raw), ws_role := Some Viewer\<rparr>)
                          (putRoom (trim raw) rm s1)"
  have jf: "join_fields m = Inr (trim raw, Viewer, name)"
    using join_fields_rendered [OF rid nm] ro by (simp add: name_def)
  have en: "ensureRoom (trim raw) now s = (rm0, s1)"
    using unseen by (simp add: ensureRoom_def getRoom_def rm0_def s1_def Let_def)
  have res: "on_message c (Parsed m) now s = Inr (join_viewer c (trim raw) name rm s3)"
    using on_message_join [OF reg ty] handle_join_unfold [OF jf ne en]
    by (simp add: rm_def s3_def)
  have hh: "host_handle rm = None" by (simp add: host_handle_def rm_def insert_member_def rm0_def)
  have undo: "remove_member c rm = rm0"
    by (simp add: remove_member_def rm_def insert_member_def rm0_def)
  define s' where "s' = join_viewer c (trim raw) name rm s3"
  have s'_eq: "s' = safeSend (Some c) (ErrorMsg ''Room exists but host is not online yet.'')
                     (set_ws c (\<lambda>w. w\<lparr>ws_roomId := None, ws_role := None\<rparr>)
                        (putRoom (trim raw) rm0 s3))"
    using hh by (simp add: s'_def join_viewer_def Let_def undo)
  have rooms': "rooms s' = AList.update (trim raw) rm0 (AList.update (trim raw) rm (AList.update (trim raw) rm0 (rooms s)))"
    by (simp add: s'_eq s3_def s1_def)
  have look: "getRoom (trim raw) s' = Some rm0"
    by (simp add: getRoom_def rooms' AList.update_conv')
  have others: "\<forall>rid'. rid' \<noteq> trim raw \<longrightarrow> getRoom rid' s' = getRoom rid' s"
    by (simp add: getRoom_def rooms' AList.update_conv')
  have wsc: "map_of (wss_clients s') c = Some (w\<lparr>ws_roomId := None, ws_role := None\<rparr>)"
    using reg by (simp add: s'_eq s3_def s1_def AList.map_of_map_entry)
  have op: "is_open (set_ws c (\<lambda>w. w\<lparr>ws_roomId := None, ws_role := None\<rparr>) (putRoom (trim raw) rm0 s3)) c
              = is_open s c"
    using reg by (simp add: is_open_def s3_def s1_def AList.map_of_map_entry)
  have wr: "wire s' = wire s @ (if is_open s c
                               then [Send c (ErrorMsg ''Room exists but host is not online yet.'')]
                               else [])"
  proof -
    have "wire (set_ws c (\<lambda>w. w\<lparr>ws_roomId := None, ws_role := None\<rparr>) (putRoom (trim raw) rm0 s3)) = wire s"
      by (simp add: s3_def s1_def)
    then show ?thesis using op by (simp add: s'_eq wire_safeSend)
  qed
  show ?thesis using res look others wsc wr unfolding s'_def rm0_def by blast
qed

lemma unknown_type_reply:
  assumes "map_of (wss_clients s) c = Some w"
      and "m_type m \<notin> {JStr ''join'', JStr ''signal'', JStr ''chat'', JStr ''leave''}"
      and "js_String (m_type m) = Inr t"
  shows "on_message c (Parsed m) now s =
           Inr (safeSend (Some c) (ErrorMsg (''Unknown message type: '' @ t)) s)"
  using assms by (simp add: on_message_def dispatch_def handle_unknown_def)

lemma unknown_type_raises:
  assumes "map_of (wss_clients s) c = Some w"
  shows "on_message c ParsedNull now s = Inl TypeError"
    and "m_type m = JObject None \<Longrightarrow> on_message c (Parsed m) now s = Inl TypeError"
  using assms by (simp_all add: on_message_def dispatch_def handle_unknown_def)

section \<open>What the handlers do when the fields of a message convert to strings\<close>

text \<open>
  The lemmas of this section assume that the fields a handler passes through
  \<^verbatim>\<open>String()\<close> convert; where a field is an object that does not, the handler raises
  instead, as the properties below show at concrete inputs.
\<close>

text \<open>
  A join with role host, a non-empty trimmed room identifier and a name that converts
  succeeds; in the
  resulting room the host identifier is the joining connection and nothing else, whatever
  host was registered before, and the index entries of every other member of the room,
  a superseded host among them, are what they were.
\<close>

lemma host_join_takes_over:
  assumes reg: "map_of (wss_clients s) c = Some w"
      and ty: "m_type m = JStr ''join''"
      and ro: "m_role m = JStr ''host''"
      and rid: "js_String (js_or (m_roomId m) (JStr [])) = Inr raw"
      and ne: "trim raw \<noteq> []"
      and nm: "js_String (js_or (m_name m) (JStr [])) = Inr rn"
  shows "\<exists>s' rm'. on_message c (Parsed m) now s = Inr s' \<and>
           getRoom (trim raw) s' = Some rm' \<and>
           (\<forall>p. hostId rm' = Some p \<longleftrightarrow> p = c) \<and>
           (\<forall>rm0 p. getRoom (trim raw) s = Some rm0 \<and> p \<noteq> c \<longrightarrow>
              map_of (clients rm') p = map_of (clients rm0) p \<and>
              map_of (roles rm') p = map_of (roles rm0) p \<and>
              map_of (names rm') p = map_of (names rm0) p)"
proof -
  define name where "name = str_or (take 40 (trim rn)) ''Host''"
  obtain rm0 s1 where en: "ensureRoom (trim raw) now s = (rm0, s1)"
    by (cases "ensureRoom (trim raw) now s")
  define rm where "rm = insert_member c Host name rm0"
  define s3 where "s3 = set_ws c (\<lambda>w. w\<lparr>ws_roomId := Some (trim raw), ws_role := Some Host\<rparr>)
                          (putRoom (trim raw) rm s1)"
  have jf: "join_fields m = Inr (trim raw, Host, name)"
    using join_fields_rendered [OF rid nm] ro by (simp add: name_def)
  have res: "on_message c (Parsed m) now s = Inr (join_host c (trim raw) name rm s3)"
    using on_message_join [OF reg ty] handle_join_unfold [OF jf ne en]
    by (simp add: rm_def s3_def)
  have look: "getRoom (trim raw) (join_host c (trim raw) name rm s3) = Some (rm\<lparr>hostId := Some c\<rparr>)"
    by (simp add: getRoom_def rooms_join_host AList.update_conv')
  have others: "map_of (clients (rm\<lparr>hostId := Some c\<rparr>)) p = map_of (clients r0) p \<and>
                map_of (roles (rm\<lparr>hostId := Some c\<rparr>)) p = map_of (roles r0) p \<and>
                map_of (names (rm\<lparr>hostId := Some c\<rparr>)) p = map_of (names r0) p"
    if "getRoom (trim raw) s = Some r0" "p \<noteq> c" for r0 p
  proof -
    have "rm0 = r0" using ensureRoom_existing [OF that(1), of now] en by simp
    then show ?thesis using map_of_insert_member_other [OF that(2)] by (simp add: rm_def)
  qed
  have host: "\<forall>p. hostId (rm\<lparr>hostId := Some c\<rparr>) = Some p \<longleftrightarrow> p = c" by auto
  show ?thesis using res look host others by blast
qed

lemma host_join_takes_over_example:
  "map_of (wss_clients (on_connection ''g'' st_watched)) ''g'' =
     Some \<lparr>isAlive = True, ws_roomId = None, ws_role = None, readyState = OPEN\<rparr> \<and>
   m_type (join_req ''R'' ''host'') = JStr ''join'' \<and>
   m_role (join_req ''R'' ''host'') = JStr ''host'' \<and>
   js_String (js_or (m_roomId (join_req ''R'' ''host'')) (JStr [])) = Inr ''R'' \<and>
   trim ''R'' \<noteq> [] \<and>
   js_String (js_or (m_name (join_req ''R'' ''host'')) (JStr [])) = Inr [] \<and>
   getRoom (trim ''R'') (on_connection ''g'' st_watched) \<noteq> None \<and>
   (\<exists>s' rm'. on_message ''g'' (Parsed (join_req ''R'' ''host'')) 9 (on_connection ''g'' st_watched) = Inr s' \<and>
           getRoom (trim ''R'') s' = Some rm' \<and>
           (\<forall>p. hostId rm' = Some p \<longleftrightarrow> p = ''g'') \<and>
           (\<forall>rm0 p. getRoom (trim ''R'') (on_connection ''g'' st_watched) = Some rm0 \<and> p \<noteq> ''g'' \<longrightarrow>
              map_of (clients rm') p = map_of (clients rm0) p \<and>
              map_of (roles rm') p = map_of (roles rm0) p \<and>
              map_of (names rm') p = map_of (names rm0) p))"
proof -
  have h1: "map_of (wss_clients (on_connection ''g'' st_watched)) ''g'' =
     Some \<lparr>isAlive = True, ws_roomId = None, ws_role = None, readyState = OPEN\<rparr>"
    by code_simp
  have h2: "m_type (join_req ''R'' ''host'') = JStr ''join''" by code_simp
  have h3: "m_role (join_req ''R'' ''host'') = JStr ''host''" by code_simp
  have h4: "js_String (js_or (m_roomId (join_req ''R'' ''host'')) (JStr [])) = Inr ''R''"
    by code_simp
  have h5: "trim ''R'' \<noteq> []" by code_simp
  have h6: "js_String (js_or (m_name (join_req ''R'' ''host'')) (JStr [])) = Inr []"
    by code_simp
  have h7: "getRoom (trim ''R'') (on_connection ''g'' st_watched) \<noteq> None" by code_simp
  note c = host_join_takes_over [OF h1 h2 h3 h4 h5 h6, of 9]
  show ?thesis using h1 h2 h3 h4 h5 h6 h7 c by blast
qed

text \<open>
  When a connection closes whose current-room field names a room of which
  it is the host identifier, then, with the remaining members being the room's members
  other than the closing connection: a host_left notice is sent to the socket of each
  remaining member that is open, close is then called on the socket of every remaining
  member, none of them is open afterwards, the room identifier is absent from the store and
  the closing connection is no longer registered.
\<close>

lemma host_close_cascade:
  assumes reg: "map_of (wss_clients s) c = Some w"
      and cur: "ws_roomId w = Some rid" "rid \<noteq> []"
      and room: "getRoom rid s = Some rm0"
      and host: "hostId rm0 = Some c"
  shows "\<exists>s'. step (Close c) s = Inr s' \<and>
           wire s' = wire s @
             map (\<lambda>h. Send h (HostLeft rid ''Host left. Room closed.''))
                 (filter (\<lambda>h. h \<noteq> c \<and> is_open s h) (map snd (AList.delete c (clients rm0)))) @
             map CloseCall (map snd (AList.delete c (clients rm0))) \<and>
           (\<forall>h \<in> set (map snd (AList.delete c (clients rm0))). \<not> is_open s' h) \<and>
           getRoom rid s' = None \<and>
           map_of (wss_clients s') c = None"
proof -
  define s0 where "s0 = s\<lparr>wss_clients := AList.delete c (wss_clients s)\<rparr>"
  define members where "members = map snd (AList.delete c (clients rm0))"
  define s1 where "s1 = putRoom rid (remove_member c rm0) s0"
  define s2 where "s2 = broadcast (remove_member c rm0) (HostLeft rid ''Host left. Room closed.'') s1"
  define s3 where "s3 = fold ws_close members s2"
  have r0: "getRoom rid s0 = Some rm0" using room by (simp add: s0_def getRoom_def)
  have e: "step (Close c) s = Inr (deleteRoom rid s3)"
    using reg teardown_host [OF current_room_Some [OF cur] r0 host]
    by (simp add: on_close_def s0_def s1_def s2_def s3_def members_def)
  have o0: "is_open s0 h = (h \<noteq> c \<and> is_open s h)" for h
    by (simp add: is_open_def s0_def AList.delete_conv')
  have o1: "is_open s1 = (\<lambda>h. h \<noteq> c \<and> is_open s h)"
    by (simp add: s1_def o0 fun_eq_iff)
  have w2: "wire s2 = wire s @ map (\<lambda>h. Send h (HostLeft rid ''Host left. Room closed.''))
                               (filter (\<lambda>h. h \<noteq> c \<and> is_open s h) members)"
  proof -
    have "wire s1 = wire s" by (simp add: s1_def s0_def)
    then show ?thesis by (simp add: s2_def wire_broadcast o1 members_def)
  qed
  have w3: "wire s3 = wire s2 @ map CloseCall members"
    by (simp add: s3_def fold_ws_close_fields)
  have cl: "\<forall>h \<in> set members. \<not> is_open (deleteRoom rid s3) h"
    by (simp add: s3_def is_open_fold_ws_close)
  have gone: "getRoom rid (deleteRoom rid s3) = None"
    by (simp add: getRoom_def AList.delete_conv')
  have "map_of (wss_clients s2) c = None"
    by (simp add: s2_def s1_def s0_def AList.delete_conv')
  then have unreg: "map_of (wss_clients (deleteRoom rid s3)) c = None"
    by (simp add: s3_def unregistered_fold_ws_close)
  show ?thesis using e w2 w3 cl gone unreg unfolding members_def by simp
qed

lemma host_close_cascade_example:
  "map_of (wss_clients st_watched) ''h'' =
     Some \<lparr>isAlive = True, ws_roomId = Some ''R'', ws_role = Some Host, readyState = OPEN\<rparr> \<and>
   map_option hostId (getRoom ''R'' st_watched) = Some (Some ''h'') \<and>
   map_option (\<lambda>rm. map snd (AList.delete ''h'' (clients rm))) (getRoom ''R'' st_watched) = Some [''v''] \<and>
   is_open st_watched ''v'' \<and>
   (\<exists>s'. step (Close ''h'') st_watched = Inr s' \<and>
      wire s' = wire st_watched @
                  [Send ''v'' (HostLeft ''R'' ''Host left. Room closed.''), CloseCall ''v''] \<and>
      \<not> is_open s' ''v'' \<and> getRoom ''R'' s' = None \<and> map_of (wss_clients s') ''h'' = None)"
proof -
  define w where "w = \<lparr>isAlive = True, ws_roomId = Some ''R'', ws_role = Some Host, readyState = OPEN\<rparr>"
  define rm where "rm = the (getRoom ''R'' st_watched)"
  have h1: "map_of (wss_clients st_watched) ''h'' = Some w" unfolding w_def by code_simp
  have h2: "ws_roomId w = Some ''R''" "''R'' \<noteq> []" by (simp_all add: w_def)
  have h3a: "getRoom ''R'' st_watched \<noteq> None" by code_simp
  then have h3: "getRoom ''R'' st_watched = Some rm" by (auto simp add: rm_def)
  have h4: "hostId rm = Some ''h''" unfolding rm_def by code_simp
  have m: "map snd (AList.delete ''h'' (clients rm)) = [''v'']" unfolding rm_def by code_simp
  have o: "is_open st_watched ''v''" by code_simp
  have r: "\<exists>s'. step (Close ''h'') st_watched = Inr s' \<and>
      wire s' = wire st_watched @
                  [Send ''v'' (HostLeft ''R'' ''Host left. Room closed.''), CloseCall ''v''] \<and>
      \<not> is_open s' ''v'' \<and> getRoom ''R'' s' = None \<and> map_of (wss_clients s') ''h'' = None"
    using host_close_cascade [OF h1 h2 h3 h4] o by (simp add: m)
  show ?thesis using h1 h3 h4 m o r unfolding w_def by simp
qed

text \<open>
  A signal from a connection \<open>a\<close> whose current room exists: when the trimmed target
  names a member of that room, the handler makes one send, to that member's socket, of the
  payload as received with \<open>a\<close> as sender, and changes nothing else; when the target is
  empty or not a member, the only send is an error reply to \<open>a\<close>. (A send reaches the wire
  when the socket is open, as everywhere in the server.)
\<close>

lemma signal_relay:
  assumes reg: "map_of (wss_clients s) a = Some w"
      and room: "ws_roomId w = Some rid" "rid \<noteq> []" "getRoom rid s = Some rm"
      and ty: "m_type m = JStr ''signal''"
      and to: "js_String (js_or (m_to m) (JStr [])) = Inr raw"
  shows "(trim raw \<noteq> [] \<and> map_of (clients rm) (trim raw) = Some b \<longrightarrow>
            on_message a (Parsed m) now s =
              Inr (if is_open s b then emit (Send b (Signal rid a (m_data m))) s else s)) \<and>
         (trim raw = [] \<or> map_of (clients rm) (trim raw) = None \<longrightarrow>
            on_message a (Parsed m) now s =
              Inr (if is_open s a then emit (Send a (ErrorMsg ''Invalid 'to' target'')) s else s))"
proof -
  have e: "on_message a (Parsed m) now s =
             (if trim raw = [] \<or> map_of (clients rm) (trim raw) = None
              then Inr (safeSend (Some a) (ErrorMsg ''Invalid 'to' target'') s)
              else Inr (safeSend (map_of (clients rm) (trim raw)) (Signal rid a (m_data m)) s))"
    using on_message_signal [OF reg ty] current_room_Some [OF room(1,2)] room(3) to
    by (simp add: handle_signal_def Let_def)
  show ?thesis unfolding e by (auto simp add: safeSend_def)
qed

lemma signal_relay_example:
  "map_of (wss_clients st_watched) ''v'' =
     Some \<lparr>isAlive = True, ws_roomId = Some ''R'', ws_role = Some Viewer, readyState = OPEN\<rparr> \<and>
   getRoom ''R'' st_watched \<noteq> None \<and>
   m_type (signal_req '' h '' (JObject (Some ''[object Object]''))) = JStr ''signal'' \<and>
   js_String (js_or (m_to (signal_req '' h '' (JObject (Some ''[object Object]'')))) (JStr [])) = Inr '' h '' \<and>
   trim '' h '' = ''h'' \<and>
   map_of (clients (the (getRoom ''R'' st_watched))) ''h'' = Some ''h'' \<and>
   is_open st_watched ''h'' \<and>
   on_message ''v'' (Parsed (signal_req '' h '' (JObject (Some ''[object Object]'')))) 9 st_watched =
     Inr (emit (Send ''h'' (Signal ''R'' ''v'' (JObject (Some ''[object Object]'')))) st_watched) \<and>
   js_String (js_or (m_to (signal_req ''x'' JNull)) (JStr [])) = Inr ''x'' \<and>
   map_of (clients (the (getRoom ''R'' st_watched))) (trim ''x'') = None \<and>
   is_open st_watched ''v'' \<and>
   on_message ''v'' (Parsed (signal_req ''x'' JNull)) 9 st_watched =
     Inr (emit (Send ''v'' (ErrorMsg ''Invalid 'to' target'')) st_watched)"
proof -
  define w where "w = \<lparr>isAlive = True, ws_roomId = Some ''R'', ws_role = Some Viewer, readyState = OPEN\<rparr>"
  define rm where "rm = the (getRoom ''R'' st_watched)"
  define d where "d = JObject (Some ''[object Object]'')"
  have h1: "map_of (wss_clients st_watched) ''v'' = Some w" unfolding w_def by code_simp
  have h2: "ws_roomId w = Some ''R''" "''R'' \<noteq> []" by (simp_all add: w_def)
  have h3a: "getRoom ''R'' st_watched \<noteq> None" by code_simp
  then have h3: "getRoom ''R'' st_watched = Some rm" by (auto simp add: rm_def)
  have h4: "m_type (signal_req '' h '' d) = JStr ''signal''" by code_simp
  have h4': "m_type (signal_req ''x'' JNull) = JStr ''signal''" by code_simp
  have h5: "js_String (js_or (m_to (signal_req '' h '' d)) (JStr [])) = Inr '' h ''"
    by code_simp
  have h5': "js_String (js_or (m_to (signal_req ''x'' JNull)) (JStr [])) = Inr ''x''"
    by code_simp
  have t: "trim '' h '' = ''h''" by code_simp
  have m: "map_of (clients rm) ''h'' = Some ''h''" unfolding rm_def by code_simp
  have m': "map_of (clients rm) (trim ''x'') = None" unfolding rm_def by code_simp
  have o: "is_open st_watched ''h''" by code_simp
  have o': "is_open st_watched ''v''" by code_simp
  have d1: "m_data (signal_req '' h '' d) = d" by (simp add: signal_req_def)
  have c1: "on_message ''v'' (Parsed (signal_req '' h '' d)) 9 st_watched =
              Inr (emit (Send ''h'' (Signal ''R'' ''v'' d)) st_watched)"
    using signal_relay [OF h1 h2 h3 h4 h5, of "''h''" 9] t m o d1 by simp
  have c2: "on_message ''v'' (Parsed (signal_req ''x'' JNull)) 9 st_watched =
              Inr (emit (Send ''v'' (ErrorMsg ''Invalid 'to' target'')) st_watched)"
    using signal_relay [OF h1 h2 h3 h4' h5', of _ 9] m' o' by simp
  show ?thesis using h1 h3a h4 h5 t m o c1 h5' m' o' c2 unfolding w_def rm_def d_def by simp
qed

text \<open>
  A chat from a connection whose current room exists is never turned away: whatever its
  length, the text is cut to its first 2000 code units and one message carrying the sender's
  identifier, the display name stored for the sender, the cut text and the server's clock
  reading is sent to the socket of every member of the room, in index order, the sender
  included when it is a member. Nothing else changes.
\<close>

lemma chat_broadcast:
  assumes reg: "map_of (wss_clients s) c = Some w"
      and room: "ws_roomId w = Some rid" "rid \<noteq> []" "getRoom rid s = Some rm"
      and ty: "m_type m = JStr ''chat''"
      and body: "js_String (js_or (m_message m) (JStr [])) = Inr raw"
  shows "\<exists>s' nm. on_message c (Parsed m) now s = Inr s' \<and>
           rooms s' = rooms s \<and> wss_clients s' = wss_clients s \<and>
           wire s' = wire s @ map (\<lambda>h. Send h (Chat rid c nm (take 2000 raw) now))
                                (filter (is_open s) (map snd (clients rm))) \<and>
           length (take 2000 raw) \<le> 2000 \<and>
           (length raw \<le> 2000 \<longrightarrow> take 2000 raw = raw) \<and>
           nm = get_or (map_of (names rm) c) ''User'' \<and>
           (\<forall>n. map_of (names rm) c = Some n \<and> n \<noteq> [] \<longrightarrow> nm = n) \<and>
           (map_of (clients rm) c = Some c \<and> is_open s c \<longrightarrow>
              Send c (Chat rid c nm (take 2000 raw) now) \<in> set (sent_since s s')) \<and>
           (\<forall>p. p \<in> snd ` set (clients rm) \<and> is_open s p \<longrightarrow>
              Send p (Chat rid c nm (take 2000 raw) now) \<in> set (sent_since s s'))"
proof -
  define nm where "nm = get_or (map_of (names rm) c) ''User''"
  define obj where "obj = Chat rid c nm (take 2000 raw) now"
  have e: "on_message c (Parsed m) now s = Inr (broadcast rm obj s)"
    using on_message_chat [OF reg ty] current_room_Some [OF room(1,2)] room(3) body
    by (simp add: handle_chat_def Let_def obj_def nm_def)
  have wr: "wire (broadcast rm obj s) =
              wire s @ map (\<lambda>h. Send h obj) (filter (is_open s) (map snd (clients rm)))"
    by (rule wire_broadcast)
  have since: "sent_since s (broadcast rm obj s) =
                 map (\<lambda>h. Send h obj) (filter (is_open s) (map snd (clients rm)))"
    using wr by (rule sent_since_append)
  have all: "Send p obj \<in> set (sent_since s (broadcast rm obj s))"
    if "p \<in> snd ` set (clients rm)" "is_open s p" for p
    using that unfolding since by auto
  have self: "Send c obj \<in> set (sent_since s (broadcast rm obj s))"
    if "map_of (clients rm) c = Some c" "is_open s c"
  proof -
    have "(c, c) \<in> set (clients rm)" using that(1) by (rule map_of_SomeD)
    then have "c \<in> snd ` set (clients rm)" by force
    then show ?thesis using all that(2) by blast
  qed
  have nmn: "\<forall>n. map_of (names rm) c = Some n \<and> n \<noteq> [] \<longrightarrow> nm = n"
    by (simp add: nm_def get_or_def str_or_def)
  show ?thesis
    using e wr all self nmn unfolding obj_def nm_def
    by (intro exI [of _ "broadcast rm (Chat rid c (get_or (map_of (names rm) c) ''User'') (take 2000 raw) now) s"]
        exI [of _ "get_or (map_of (names rm) c) ''User''"]) simp
qed

lemma chat_broadcast_example:
  "map_of (wss_clients st_watched) ''v'' =
     Some \<lparr>isAlive = True, ws_roomId = Some ''R'', ws_role = Some Viewer, readyState = OPEN\<rparr> \<and>
   getRoom ''R'' st_watched \<noteq> None \<and>
   m_type (chat_req ''hi'') = JStr ''chat'' \<and>
   js_String (js_or (m_message (chat_req ''hi'')) (JStr [])) = Inr ''hi'' \<and>
   map_of (clients (the (getRoom ''R'' st_watched))) ''v'' = Some ''v'' \<and>
   is_open st_watched ''v'' \<and>
   map_of (names (the (getRoom ''R'' st_watched))) ''v'' = Some ''Viewer'' \<and>
   (\<exists>s'. on_message ''v'' (Parsed (chat_req ''hi'')) 12 st_watched = Inr s' \<and>
      rooms s' = rooms st_watched \<and> wss_clients s' = wss_clients st_watched \<and>
      wire s' = wire st_watched @
                  [Send ''h'' (Chat ''R'' ''v'' ''Viewer'' ''hi'' 12),
                   Send ''v'' (Chat ''R'' ''v'' ''Viewer'' ''hi'' 12)] \<and>
      Send ''v'' (Chat ''R'' ''v'' ''Viewer'' ''hi'' 12) \<in> set (sent_since st_watched s'))"
proof -
  define w where "w = \<lparr>isAlive = True, ws_roomId = Some ''R'', ws_role = Some Viewer, readyState = OPEN\<rparr>"
  define rm where "rm = the (getRoom ''R'' st_watched)"
  have h1: "map_of (wss_clients st_watched) ''v'' = Some w" unfolding w_def by code_simp
  have h2: "ws_roomId w = Some ''R''" "''R'' \<noteq> []" by (simp_all add: w_def)
  have h3a: "getRoom ''R'' st_watched \<noteq> None" by code_simp
  then have h3: "getRoom ''R'' st_watched = Some rm" by (auto simp add: rm_def)
  have h4: "m_type (chat_req ''hi'') = JStr ''chat''" by code_simp
  have h5: "js_String (js_or (m_message (chat_req ''hi'')) (JStr [])) = Inr ''hi''" by code_simp
  have m: "map_of (clients rm) ''v'' = Some ''v''" unfolding rm_def by code_simp
  have o: "is_open st_watched ''v''" by code_simp
  have n: "map_of (names rm) ''v'' = Some ''Viewer''" unfolding rm_def by code_simp
  have f: "filter (is_open st_watched) (map snd (clients rm)) = [''h'', ''v'']"
    unfolding rm_def by code_simp
  obtain s' nm where c: "on_message ''v'' (Parsed (chat_req ''hi'')) 12 st_watched = Inr s'"
      "rooms s' = rooms st_watched" "wss_clients s' = wss_clients st_watched"
      "wire s' = wire st_watched @ map (\<lambda>h. Send h (Chat ''R'' ''v'' nm (take 2000 ''hi'') 12))
                                (filter (is_open st_watched) (map snd (clients rm)))"
      "\<forall>n. map_of (names rm) ''v'' = Some n \<and> n \<noteq> [] \<longrightarrow> nm = n"
      "map_of (clients rm) ''v'' = Some ''v'' \<and> is_open st_watched ''v'' \<longrightarrow>
              Send ''v'' (Chat ''R'' ''v'' nm (take 2000 ''hi'') 12) \<in> set (sent_since st_watched s')"
    using chat_broadcast [OF h1 h2 h3 h4 h5, of 12] by blast
  have nm: "nm = ''Viewer''" using c(5) n by simp
  have r: "\<exists>s'. on_message ''v'' (Parsed (chat_req ''hi'')) 12 st_watched = Inr s' \<and>
      rooms s' = rooms st_watched \<and> wss_clients s' = wss_clients st_watched \<and>
      wire s' = wire st_watched @
                  [Send ''h'' (Chat ''R'' ''v'' ''Viewer'' ''hi'' 12),
                   Send ''v'' (Chat ''R'' ''v'' ''Viewer'' ''hi'' 12)] \<and>
      Send ''v'' (Chat ''R'' ''v'' ''Viewer'' ''hi'' 12) \<in> set (sent_since st_watched s')"
    using c(1,2,3,4,6) m o by (intro exI [of _ s']) (simp add: nm f)
  show ?thesis using h1 h3a h4 h5 m o n r unfolding w_def rm_def by simp
qed

text \<open>
  A connection that is already a member of a room and sends a join naming a non-empty
  room is not turned away for being joined: as host, or as viewer when the target room's
  host is present, the join succeeds without any error reply, the connection is in all
  three indexes of the target room and its current-room and role fields are the new ones;
  when the target is another room, the room it had joined before is unchanged, its entries
  for this connection included.
\<close>

lemma second_join:
  assumes reg: "map_of (wss_clients s) c = Some w"
      and joined: "ws_roomId w = Some r1" "getRoom r1 s = Some rmA" "c \<in> fst ` set (clients rmA)"
      and ty: "m_type m = JStr ''join''"
      and rid: "js_String (js_or (m_roomId m) (JStr [])) = Inr raw"
      and ne: "trim raw \<noteq> []"
      and nm: "js_String (js_or (m_name m) (JStr [])) = Inr rn"
      and ok: "m_role m = JStr ''host'' \<or>
               (\<exists>rmB h. getRoom (trim raw) s = Some rmB \<and> hostId rmB = Some h \<and> h \<noteq> [] \<and>
                        map_of (clients rmB) h \<noteq> None)"
  shows "\<exists>s' rm'. on_message c (Parsed m) now s = Inr s' \<and>
           getRoom (trim raw) s' = Some rm' \<and>
           c \<in> fst ` set (clients rm') \<and> c \<in> fst ` set (roles rm') \<and> c \<in> fst ` set (names rm') \<and>
           map_of (wss_clients s') c =
             Some (w\<lparr>ws_roomId := Some (trim raw),
                     ws_role := Some (if m_role m = JStr ''host'' then Host else Viewer)\<rparr>) \<and>
           (trim raw \<noteq> r1 \<longrightarrow> getRoom r1 s' = Some rmA) \<and>
           no_error_between s s'"
proof -
  define r where "r = (if m_role m = JStr ''host'' then Host else Viewer)"
  define name where "name = str_or (take 40 (trim rn)) (if m_role m = JStr ''host'' then ''Host'' else ''Viewer'')"
  obtain rm0 s1 where en: "ensureRoom (trim raw) now s = (rm0, s1)"
    by (cases "ensureRoom (trim raw) now s")
  define rm where "rm = insert_member c r name rm0"
  define s3 where "s3 = set_ws c (\<lambda>w. w\<lparr>ws_roomId := Some (trim raw), ws_role := Some r\<rparr>)
                          (putRoom (trim raw) rm s1)"
  define s' where "s' = (if r = Host then join_host c (trim raw) name rm s3
                         else join_viewer c (trim raw) name rm s3)"
  have jf: "join_fields m = Inr (trim raw, r, name)"
    using join_fields_rendered [OF rid nm] by (simp add: r_def name_def)
  have res: "on_message c (Parsed m) now s = Inr s'"
    using on_message_join [OF reg ty] handle_join_unfold [OF jf ne en]
    by (simp add: rm_def s3_def s'_def)
  have hh: "host_handle rm \<noteq> None" if "r \<noteq> Host"
  proof -
    from that ok obtain rmB h where b: "getRoom (trim raw) s = Some rmB" "hostId rmB = Some h"
      "h \<noteq> []" "map_of (clients rmB) h \<noteq> None"
      by (auto simp add: r_def split: if_splits)
    have "rm0 = rmB" using ensureRoom_existing [OF b(1), of now] en by simp
    then show ?thesis unfolding rm_def using host_handle_insert_member b(2,3,4) by blast
  qed
  have w3: "wss_clients s3 = AList.map_entry c (\<lambda>w. w\<lparr>ws_roomId := Some (trim raw), ws_role := Some r\<rparr>) (wss_clients s)"
    using ensureRoom_frame(1) [OF en] by (simp add: s3_def)
  have r3: "rooms s3 = AList.update (trim raw) rm (rooms s1)" by (simp add: s3_def)
  have wire3: "wire s3 = wire s" using ensureRoom_frame(2) [OF en] by (simp add: s3_def)
  have ws': "wss_clients s' = wss_clients s3"
    using hh by (simp add: s'_def wss_clients_join_host wss_clients_join_viewer_ok)
  have rooms': "rooms s' = AList.update (trim raw) (if r = Host then rm\<lparr>hostId := Some c\<rparr> else rm) (rooms s3)"
  proof (cases "r = Host")
    case True
    then show ?thesis by (simp add: s'_def rooms_join_host)
  next
    case False
    have "AList.update (trim raw) rm (rooms s3) = rooms s3"
      by (rule AList.update_triv) (simp add: r3 AList.update_conv')
    then show ?thesis using False hh by (simp add: s'_def rooms_join_viewer_ok)
  qed
  define rm' where "rm' = (if r = Host then rm\<lparr>hostId := Some c\<rparr> else rm)"
  have look: "getRoom (trim raw) s' = Some rm'"
    by (simp add: getRoom_def rooms' rm'_def AList.update_conv')
  have keys: "c \<in> fst ` set (clients rm') \<and> c \<in> fst ` set (roles rm') \<and> c \<in> fst ` set (names rm')"
    by (simp add: rm'_def rm_def insert_member_def AList.dom_update)
  have wsc: "map_of (wss_clients s') c = Some (w\<lparr>ws_roomId := Some (trim raw), ws_role := Some r\<rparr>)"
    using reg by (simp add: ws' w3 AList.map_of_map_entry)
  have old: "getRoom r1 s' = Some rmA" if other: "trim raw \<noteq> r1"
  proof -
    have "map_of (rooms s') r1 = map_of (rooms s1) r1"
      using other by (simp add: rooms' r3 AList.update_conv')
    also have "\<dots> = map_of (rooms s) r1" using ensureRoom_others [OF en] other by simp
    finally show ?thesis using joined(2) by (simp add: getRoom_def)
  qed
  have quiet: "no_error_between s s'"
  proof -
    have a: "no_error_between s s3" using wire3 by (simp add: no_error_between_refl)
    have b: "no_error_between s3 s'"
      using hh by (simp add: s'_def no_error_join_host no_error_join_viewer_ok)
    show ?thesis using a b by (rule no_error_between_trans)
  qed
  show ?thesis using res look keys wsc old quiet unfolding r_def by blast
qed

lemma second_join_example:
  "map_of (wss_clients st_hosted) ''h'' =
     Some \<lparr>isAlive = True, ws_roomId = Some ''R'', ws_role = Some Host, readyState = OPEN\<rparr> \<and>
   getRoom ''R'' st_hosted \<noteq> None \<and>
   ''h'' \<in> fst ` set (clients (the (getRoom ''R'' st_hosted))) \<and>
   m_type (join_req ''S'' ''host'') = JStr ''join'' \<and>
   m_role (join_req ''S'' ''host'') = JStr ''host'' \<and>
   js_String (js_or (m_roomId (join_req ''S'' ''host'')) (JStr [])) = Inr ''S'' \<and>
   trim ''S'' = ''S'' \<and>
   js_String (js_or (m_name (join_req ''S'' ''host'')) (JStr [])) = Inr [] \<and>
   (\<exists>s' rm'. on_message ''h'' (Parsed (join_req ''S'' ''host'')) 9 st_hosted = Inr s' \<and>
      getRoom ''S'' s' = Some rm' \<and>
      ''h'' \<in> fst ` set (clients rm') \<and> ''h'' \<in> fst ` set (roles rm') \<and>
      ''h'' \<in> fst ` set (names rm') \<and>
      map_of (wss_clients s') ''h'' =
        Some \<lparr>isAlive = True, ws_roomId = Some ''S'', ws_role = Some Host, readyState = OPEN\<rparr> \<and>
      getRoom ''R'' s' = getRoom ''R'' st_hosted \<and>
      no_error_between st_hosted s')"
proof -
  define w where "w = \<lparr>isAlive = True, ws_roomId = Some ''R'', ws_role = Some Host, readyState = OPEN\<rparr>"
  define rmA where "rmA = the (getRoom ''R'' st_hosted)"
  have h1: "map_of (wss_clients st_hosted) ''h'' = Some w" unfolding w_def by code_simp
  have h2: "ws_roomId w = Some ''R''" by (simp add: w_def)
  have h3a: "getRoom ''R'' st_hosted \<noteq> None" by code_simp
  then have h3: "getRoom ''R'' st_hosted = Some rmA" by (auto simp add: rmA_def)
  have h4: "''h'' \<in> fst ` set (clients rmA)" unfolding rmA_def by code_simp
  have h5: "m_type (join_req ''S'' ''host'') = JStr ''join''" by code_simp
  have h6: "js_String (js_or (m_roomId (join_req ''S'' ''host'')) (JStr [])) = Inr ''S''"
    by code_simp
  have t: "trim ''S'' = ''S''" by code_simp
  have h7: "trim ''S'' \<noteq> []" by (simp add: t)
  have h8: "js_String (js_or (m_name (join_req ''S'' ''host'')) (JStr [])) = Inr []"
    by code_simp
  have h9: "m_role (join_req ''S'' ''host'') = JStr ''host''" by code_simp
  have h10: "m_role (join_req ''S'' ''host'') = JStr ''host'' \<or>
               (\<exists>rmB h. getRoom (trim ''S'') st_hosted = Some rmB \<and> hostId rmB = Some h \<and> h \<noteq> [] \<and>
                        map_of (clients rmB) h \<noteq> None)"
    using h9 by simp
  note c = second_join [OF h1 h2 h3 h4 h5 h6 h7 h8 h10, of 9]
  have c': "\<exists>s' rm'. on_message ''h'' (Parsed (join_req ''S'' ''host'')) 9 st_hosted = Inr s' \<and>
      getRoom ''S'' s' = Some rm' \<and>
      ''h'' \<in> fst ` set (clients rm') \<and> ''h'' \<in> fst ` set (roles rm') \<and>
      ''h'' \<in> fst ` set (names rm') \<and>
      map_of (wss_clients s') ''h'' =
        Some \<lparr>isAlive = True, ws_roomId = Some ''S'', ws_role = Some Host, readyState = OPEN\<rparr> \<and>
      getRoom ''R'' s' = getRoom ''R'' st_hosted \<and>
      no_error_between st_hosted s'"
    using c h3 h9 by (auto simp add: t w_def)
  show ?thesis using h1 h3a h4 h5 h9 h6 t h8 c' unfolding w_def rmA_def by simp
qed

section \<open>Properties of the server\<close>

text \<open>
  C1. In every room of the store the connection handle, role and display-name indexes have
  the same set of keys: this holds in the initial store, is preserved by every event the
  server handles (connection, any message including host and viewer joins and the rejected
  viewer join, pong, liveness sweep, close) and so holds in every state a run reaches. The
  join inserts the identifier into all three indexes and the removal deletes it from all
  three.
\<close>

theorem C1_index_consistency:
  "store_consistent init_server \<and>
   (store_consistent s \<and> step e s = Inr s' \<longrightarrow> store_consistent s') \<and>
   (run es init_server = Inr t \<longrightarrow> store_consistent t) \<and>
   fst ` set (clients (insert_member c r nm rm)) = insert c (fst ` set (clients rm)) \<and>
   fst ` set (roles (insert_member c r nm rm)) = insert c (fst ` set (roles rm)) \<and>
   fst ` set (names (insert_member c r nm rm)) = insert c (fst ` set (names rm)) \<and>
   fst ` set (clients (remove_member c rm)) = fst ` set (clients rm) - {c} \<and>
   fst ` set (roles (remove_member c rm)) = fst ` set (roles rm) - {c} \<and>
   fst ` set (names (remove_member c rm)) = fst ` set (names rm) - {c}"
proof -
  have i: "store_consistent init_server"
    by (simp add: store_consistent_def init_server_def)
  have p: "store_consistent s \<and> step e s = Inr s' \<longrightarrow> store_consistent s'"
    using step_consistent by blast
  have r: "run es init_server = Inr t \<longrightarrow> store_consistent t"
    using run_consistent [OF i] by blast
  show ?thesis
    using i p r by (simp add: insert_member_def remove_member_def AList.dom_update dom_delete)
qed

theorem C1_index_consistency_witness:
  "store_consistent st_hosted \<and>
   step (Message ''v'' (join_msg ''R'' ''viewer'') 8) (on_connection ''v'' st_hosted) = Inr st_watched \<and>
   store_consistent st_watched \<and>
   run [Connection ''h'', Message ''h'' (join_msg ''R'' ''host'') 7] init_server = Inr st_hosted"
proof -
  have a: "store_consistent (on_connection ''v'' st_hosted)" by code_simp
  have b: "step (Message ''v'' (join_msg ''R'' ''viewer'') 8) (on_connection ''v'' st_hosted) = Inr st_watched"
    by code_simp
  have c: "run [Connection ''h'', Message ''h'' (join_msg ''R'' ''host'') 7] init_server = Inr st_hosted"
    by code_simp
  have d: "store_consistent st_hosted"
    using C1_index_consistency [of _ _ _ "[Connection ''h'', Message ''h'' (join_msg ''R'' ''host'') 7]" st_hosted] c
    by blast
  have e: "store_consistent st_watched"
    using C1_index_consistency [of "on_connection ''v'' st_hosted" "Message ''v'' (join_msg ''R'' ''viewer'') 8" st_watched] a b
    by blast
  show ?thesis using b c d e by simp
qed

text \<open>
  C2. On the server \<open>st_fresh\<close>, which has no room, a viewer join of connection \<open>v\<close> naming
  room \<open>r\<close> is answered with the error reply and the connection's room and role fields
  stay unset, but the room store is not what it was: it now holds an empty room \<open>r\<close> without
  host.
\<close>

theorem C2_rejected_viewer_join_keeps_room:
  "rooms st_fresh = [] \<and>
   on_message ''v'' (join_msg ''r'' ''viewer'') 5 st_fresh =
     Inr \<lparr>rooms = [(''r'', \<lparr>roomId = ''r'', hostId = None, clients = [], roles = [],
                             names = [], createdAt = 5\<rparr>)],
          wss_clients = [(''v'', \<lparr>isAlive = True, ws_roomId = None, ws_role = None,
                                 readyState = OPEN\<rparr>)],
          wire = [Send ''v'' (Hello ''v''),
                  Send ''v'' (ErrorMsg ''Room exists but host is not online yet.'')]\<rparr>"
  by code_simp

text \<open>
  C3. On the server reached from \<open>st_watched\<close> by a further connection \<open>g\<close>, room \<open>R\<close> has
  host identifier \<open>h\<close>. The join of \<open>g\<close> with role host, room identifier \<open>R\<close> and, as name,
  the object \<^verbatim>\<open>{"toString":1}\<close> makes the handler raise a TypeError where it converts the
  name: no state is returned and the host identifier of \<open>R\<close> is not overwritten. The same
  join without a name succeeds and makes \<open>g\<close> the host identifier.
\<close>

theorem C3_host_join_raises:
  "m_type (odd_name_join ''R'') = JStr ''join'' \<and>
   m_role (odd_name_join ''R'') = JStr ''host'' \<and>
   js_String (js_or (m_roomId (odd_name_join ''R'')) (JStr [])) = Inr ''R'' \<and>
   trim ''R'' = ''R'' \<and>
   map_of (wss_clients (on_connection ''g'' st_watched)) ''g'' =
     Some \<lparr>isAlive = True, ws_roomId = None, ws_role = None, readyState = OPEN\<rparr> \<and>
   map_option hostId (getRoom ''R'' (on_connection ''g'' st_watched)) = Some (Some ''h'') \<and>
   on_message ''g'' (Parsed (odd_name_join ''R'')) 9 (on_connection ''g'' st_watched) =
     Inl TypeError \<and>
   (case on_message ''g'' (join_msg ''R'' ''host'') 9 (on_connection ''g'' st_watched) of
      Inl e \<Rightarrow> None
    | Inr t \<Rightarrow> map_option hostId (getRoom ''R'' t)) = Some (Some ''g'')"
  by code_simp

text \<open>
  C4. After \<open>h\<close> has joined \<open>R\<close> as host, \<open>v\<close> has joined \<open>R\<close> as viewer, \<open>h\<close> has joined
  \<open>S\<close> as host and the connection \<open>h\<close> has closed, the server is \<open>st_zombie\<close>: the
  connection that is the host identifier of room \<open>R\<close> is gone, and \<open>R\<close> is still in the
  store with \<open>v\<close> a member, no host_left notice sent to \<open>v\<close> and close not called on \<open>v\<close>.
\<close>

theorem C4_room_outlives_host:
  "run zombie_trace init_server = Inr st_zombie \<and>
   map_option hostId (getRoom ''R'' st_zombie) = Some (Some ''h'') \<and>
   map_of (wss_clients st_zombie) ''h'' = None \<and>
   map_option (map fst \<circ> clients) (getRoom ''R'' st_zombie) = Some [''h'', ''v''] \<and>
   Send ''v'' (HostLeft ''R'' ''Host left. Room closed.'') \<notin> set (wire st_zombie) \<and>
   CloseCall ''v'' \<notin> set (wire st_zombie) \<and>
   is_open st_zombie ''v''"
  by code_simp

text \<open>
  C5. On the server \<open>st_watched\<close>, where \<open>v\<close> is a viewer of room \<open>R\<close>, a signal of \<open>v\<close>
  whose target is the object \<^verbatim>\<open>{"toString":1}\<close>, which names no member of \<open>R\<close>, makes the
  handler raise a TypeError where it converts the target: no state is returned and no error
  reply is sent to \<open>v\<close>. A signal of \<open>v\<close> to the unknown identifier \<open>x\<close> gets the reply.
\<close>

theorem C5_signal_raises:
  "map_of (wss_clients st_watched) ''v'' =
     Some \<lparr>isAlive = True, ws_roomId = Some ''R'', ws_role = Some Viewer, readyState = OPEN\<rparr> \<and>
   map_option (map fst \<circ> clients) (getRoom ''R'' st_watched) = Some [''h'', ''v''] \<and>
   m_type odd_signal = JStr ''signal'' \<and>
   m_to odd_signal = JObject None \<and>
   on_message ''v'' (Parsed odd_signal) 9 st_watched = Inl TypeError \<and>
   on_message ''v'' (Parsed (signal_req ''x'' JNull)) 9 st_watched =
     Inr (emit (Send ''v'' (ErrorMsg ''Invalid 'to' target'')) st_watched)"
  by code_simp

text \<open>
  C6. On the server \<open>st_watched\<close>, where \<open>v\<close> is a viewer of room \<open>R\<close>, a chat of \<open>v\<close> whose
  message is the object \<^verbatim>\<open>{"toString":1}\<close> makes the handler raise a TypeError where it
  converts the message: no state is returned, nothing is cut and nothing is sent to any
  member. The chat \<open>hi\<close> of \<open>v\<close> is sent to \<open>h\<close> and \<open>v\<close>.
\<close>

theorem C6_chat_raises:
  "map_of (wss_clients st_watched) ''v'' =
     Some \<lparr>isAlive = True, ws_roomId = Some ''R'', ws_role = Some Viewer, readyState = OPEN\<rparr> \<and>
   map_option (map fst \<circ> clients) (getRoom ''R'' st_watched) = Some [''h'', ''v''] \<and>
   m_type odd_chat = JStr ''chat'' \<and>
   m_message odd_chat = JObject None \<and>
   on_message ''v'' (Parsed odd_chat) 12 st_watched = Inl TypeError \<and>
   (case on_message ''v'' (Parsed (chat_req ''hi'')) 12 st_watched of
      Inl e \<Rightarrow> []
    | Inr t \<Rightarrow> sent_since st_watched t) =
     [Send ''h'' (Chat ''R'' ''v'' ''Viewer'' ''hi'' 12),
      Send ''v'' (Chat ''R'' ''v'' ''Viewer'' ''hi'' 12)]"
  by code_simp

text \<open>
  C7. On the server \<open>st_fresh\<close>, the message text \<^verbatim>\<open>null\<close> and the message text
  \<^verbatim>\<open>{"type":{"toString":1}}\<close>, both parseable and neither of type join, signal, chat or
  leave, make the message handler raise a TypeError: it returns no state and sends no error
  reply. A message whose type is absent gets the reply.
\<close>

theorem C7_unknown_type_raises:
  "on_message ''v'' ParsedNull 5 st_fresh = Inl TypeError \<and>
   m_type odd_type_msg \<notin> {JStr ''join'', JStr ''signal'', JStr ''chat'', JStr ''leave''} \<and>
   on_message ''v'' (Parsed odd_type_msg) 5 st_fresh = Inl TypeError \<and>
   on_message ''v'' (Parsed ((plain_msg [])\<lparr>m_type := JUndefined\<rparr>)) 5 st_fresh =
     Inr (emit (Send ''v'' (ErrorMsg ''Unknown message type: undefined'')) st_fresh)"
  by code_simp



text \<open>
  C9. On the server \<open>st_hosted\<close>, where \<open>h\<close> has joined room \<open>R\<close> as host, a second join of
  \<open>h\<close> with role host, the non-empty room identifier \<open>S\<close> and, as name, the object
  \<^verbatim>\<open>{"toString":1}\<close> makes the handler raise a TypeError where it converts the name: no
  state is returned and \<open>h\<close> is inserted into no index of \<open>S\<close>. The same join without a name
  succeeds: \<open>h\<close> is then in the indexes of \<open>S\<close>, its current room is \<open>S\<close>, and room \<open>R\<close> is
  as it was.
\<close>

theorem C9_second_join_raises:
  "map_of (wss_clients st_hosted) ''h'' =
     Some \<lparr>isAlive = True, ws_roomId = Some ''R'', ws_role = Some Host, readyState = OPEN\<rparr> \<and>
   map_option (map fst \<circ> clients) (getRoom ''R'' st_hosted) = Some [''h''] \<and>
   m_type (odd_name_join ''S'') = JStr ''join'' \<and>
   m_role (odd_name_join ''S'') = JStr ''host'' \<and>
   js_String (js_or (m_roomId (odd_name_join ''S'')) (JStr [])) = Inr ''S'' \<and>
   trim ''S'' = ''S'' \<and>
   on_message ''h'' (Parsed (odd_name_join ''S'')) 9 st_hosted = Inl TypeError \<and>
   (case on_message ''h'' (join_msg ''S'' ''host'') 9 st_hosted of
      Inl e \<Rightarrow> None
    | Inr t \<Rightarrow> Some (map_option (map fst \<circ> clients) (getRoom ''S'' t),
                     map_option ws_roomId (map_of (wss_clients t) ''h''),
                     getRoom ''R'' t = getRoom ''R'' st_hosted)) =
     Some (Some [''h''], Some (Some ''S''), True)"
  by code_simp

text \<open>
  C10. The roster lists as viewers, in index order, exactly the identifiers whose role-index
  value is viewer, and as host the descriptor of the room's host identifier when one is set.
  A member whose role is host but who is not the room's host identifier is therefore in
  neither part of the roster.
\<close>

theorem C10_roster:
  "map fst (viewers (roster rm)) = map fst (filter (\<lambda>(i, r). r = Viewer) (roles rm)) \<and>
   fst ` set (viewers (roster rm)) = {i. (i, Viewer) \<in> set (roles rm)} \<and>
   (\<forall>h. hostId rm = Some h \<and> h \<noteq> [] \<longrightarrow>
        host (roster rm) = Some (h, get_or (map_of (names rm) h) ''Host'')) \<and>
   (hostId rm = None \<longrightarrow> host (roster rm) = None) \<and>
   (\<forall>p. distinct (map fst (roles rm)) \<and> map_of (roles rm) p = Some Host \<and> hostId rm \<noteq> Some p \<longrightarrow>
        p \<notin> fst ` set (viewers (roster rm)) \<and> (\<forall>d. host (roster rm) = Some d \<longrightarrow> fst d \<noteq> p))"
proof -
  have v: "map fst (viewers (roster rm)) = map fst (filter (\<lambda>(i, r). r = Viewer) (roles rm))"
    by (simp add: roster_def case_prod_beta comp_def)
  have vs: "fst ` set (viewers (roster rm)) = {i. (i, Viewer) \<in> set (roles rm)}"
  proof -
    have "fst ` set (viewers (roster rm)) = set (map fst (viewers (roster rm)))" by simp
    also have "\<dots> = fst ` {x \<in> set (roles rm). snd x = Viewer}"
      unfolding v by (simp add: case_prod_beta)
    also have "\<dots> = {i. (i, Viewer) \<in> set (roles rm)}" by force
    finally show ?thesis .
  qed
  have h1: "\<forall>h. hostId rm = Some h \<and> h \<noteq> [] \<longrightarrow>
        host (roster rm) = Some (h, get_or (map_of (names rm) h) ''Host'')"
    by (simp add: roster_def)
  have h2: "hostId rm = None \<longrightarrow> host (roster rm) = None"
    by (simp add: roster_def)
  have sup: "p \<notin> fst ` set (viewers (roster rm)) \<and> (\<forall>d. host (roster rm) = Some d \<longrightarrow> fst d \<noteq> p)"
    if d: "distinct (map fst (roles rm))" and r: "map_of (roles rm) p = Some Host"
      and nh: "hostId rm \<noteq> Some p" for p
  proof -
    have "(p, Viewer) \<notin> set (roles rm)"
    proof
      assume "(p, Viewer) \<in> set (roles rm)"
      then have "map_of (roles rm) p = Some Viewer" using d by simp
      with r show False by simp
    qed
    then have a: "p \<notin> fst ` set (viewers (roster rm))" unfolding vs by simp
    have b: "\<forall>d. host (roster rm) = Some d \<longrightarrow> fst d \<noteq> p"
      using nh by (auto simp add: roster_def split: option.splits if_splits)
    show ?thesis using a b by simp
  qed
  show ?thesis using v vs h1 h2 sup by blast
qed

theorem C10_roster_witness:
  "distinct (map fst (roles rm_superseded)) \<and> map_of (roles rm_superseded) ''h'' = Some Host \<and>
   hostId rm_superseded = Some ''g'' \<and> ''g'' \<noteq> [] \<and> Some ''g'' \<noteq> Some ''h'' \<and>
   ''h'' \<in> fst ` set (clients rm_superseded) \<and>
   roster rm_superseded = \<lparr>host = Some (''g'', ''Host''), viewers = [(''v'', ''Viewer'')]\<rparr> \<and>
   ''h'' \<notin> fst ` set (viewers (roster rm_superseded)) \<and>
   map_option fst (host (roster rm_superseded)) \<noteq> Some ''h'' \<and>
   host (roster rm_superseded) = Some (''g'', get_or (map_of (names rm_superseded) ''g'') ''Host'')"
proof -
  have a: "distinct (map fst (roles rm_superseded))" by code_simp
  have b: "map_of (roles rm_superseded) ''h'' = Some Host" by code_simp
  have c: "hostId rm_superseded = Some ''g''" by code_simp
  have d: "''h'' \<in> fst ` set (clients rm_superseded)" by (simp add: rm_superseded_def)
  have e: "roster rm_superseded = \<lparr>host = Some (''g'', ''Host''), viewers = [(''v'', ''Viewer'')]\<rparr>"
    by code_simp
  have f: "hostId rm_superseded \<noteq> Some ''h''" using c by simp
  note t = C10_roster [of rm_superseded]
  have g: "''h'' \<notin> fst ` set (viewers (roster rm_superseded)) \<and>
           (\<forall>d. host (roster rm_superseded) = Some d \<longrightarrow> fst d \<noteq> ''h'')"
    using t a b f by blast
  have h: "host (roster rm_superseded) = Some (''g'', get_or (map_of (names rm_superseded) ''g'') ''Host'')"
    using t c by simp
  have i: "map_option fst (host (roster rm_superseded)) \<noteq> Some ''h''"
    using g by (cases "host (roster rm_superseded)") auto
  show ?thesis using a b c d e g h i by simp
qed

end
